theory Spec2Isabelle
  imports Complex_Main
begin

section \<open>ViT-SNGP training script (baselines/jft/sngp.py)\<close>

text \<open>
  Python exceptions raised by the modelled code. A failed \<open>assert\<close> is
  \<open>AssertionError\<close>; \<open>raise ValueError(...)\<close> and a pytree structure mismatch are
  \<open>ValueError\<close>; a slice larger than its operand is \<open>TypeError\<close>; a division of
  Python integers by zero is \<open>ZeroDivisionError\<close>.
\<close>

datatype error = AssertionError | ValueError | TypeError | ZeroDivisionError

subsection \<open>Gradient accumulation\<close>

text \<open>
  Arrays are lists along their leading (batch) axis. A gradient pytree is the list of its
  leaves, every leaf a number. The loss-and-gradient function takes the parameters, the
  auxiliary state and a batch of images and labels and returns
  \<open>((loss, state), grads)\<close>.
\<close>

type_synonym grads = "real list"

type_synonym ('p, 's, 'x, 'y) loss_and_grad =
  "'p \<Rightarrow> 's \<Rightarrow> 'x list \<Rightarrow> 'y list \<Rightarrow> (real \<times> 's) \<times> grads"

text \<open>\<open>jax.lax.fori_loop(lower, upper, body, init)\<close> with a body that may fail.\<close>

function fori_loop :: "nat \<Rightarrow> nat \<Rightarrow> (nat \<Rightarrow> 'a \<Rightarrow> error + 'a) \<Rightarrow> 'a \<Rightarrow> error + 'a" where
  "fori_loop lower upper body v =
     (if lower < upper
      then (case body lower v of
              Inl e \<Rightarrow> Inl e
            | Inr v' \<Rightarrow> fori_loop (Suc lower) upper body v')
      else Inr v)"
  by pat_completeness auto
termination
  by (relation "measure (\<lambda>(lower, upper, body, v). upper - lower)") auto

declare fori_loop.simps [simp del]

text \<open>
  \<open>jax.lax.dynamic_slice\<close> along the leading axis: the slice size must fit the operand,
  and the start index is clamped so that the slice stays inside it.
\<close>

definition dynamic_slice :: "'a list \<Rightarrow> nat \<Rightarrow> nat \<Rightarrow> error + 'a list" where
  "dynamic_slice operand start slice_size =
     (if length operand < slice_size then Inl TypeError
      else Inr (take slice_size
                  (drop (min start (length operand - slice_size)) operand)))"

text \<open>
  \<open>jax.tree_multimap(lambda x, y: x + y, g, gi)\<close>: leafwise sum of two pytrees of the
  same structure; a structure mismatch raises.
\<close>

definition tree_add :: "grads \<Rightarrow> grads \<Rightarrow> error + grads" where
  "tree_add g gi =
     (if length g = length gi then Inr (map2 (+) g gi) else Inl ValueError)"

text \<open>The loop body \<open>acc_grad_and_loss(i, l_s_g)\<close>.\<close>

definition acc_grad_and_loss ::
  "('p, 's, 'x, 'y) loss_and_grad \<Rightarrow> 'p \<Rightarrow> 'x list \<Rightarrow> 'y list \<Rightarrow> nat \<Rightarrow>
   nat \<Rightarrow> real \<times> 's \<times> grads \<Rightarrow> error + (real \<times> 's \<times> grads)" where
  "acc_grad_and_loss loss_and_grad_fn params images labels step_size i l_s_g =
     (case dynamic_slice images (i * step_size) step_size of
        Inl e \<Rightarrow> Inl e
      | Inr imgs \<Rightarrow>
         (case dynamic_slice labels (i * step_size) step_size of
            Inl e \<Rightarrow> Inl e
          | Inr lbls \<Rightarrow>
             (case l_s_g of (l, s, g) \<Rightarrow>
                (case loss_and_grad_fn params s imgs lbls of ((li, si), gi) \<Rightarrow>
                   (case tree_add g gi of
                      Inl e \<Rightarrow> Inl e
                    | Inr g' \<Rightarrow> Inr (l + li, si, g'))))))"

text \<open>
  \<open>accumulate_gradient_with_states\<close>. \<open>accum_steps\<close> is \<open>config.get('grad_accum_steps')\<close>:
  \<open>None\<close> when unset. The test \<open>accum_steps and accum_steps > 1\<close> sends \<open>None\<close>, \<open>0\<close>,
  \<open>1\<close> and negative values to the pass-through branch.
\<close>

definition accumulate_gradient_with_states ::
  "('p, 's, 'x, 'y) loss_and_grad \<Rightarrow> 'p \<Rightarrow> 's \<Rightarrow> 'x list \<Rightarrow> 'y list \<Rightarrow>
   int option \<Rightarrow> error + ((real \<times> 's) \<times> grads)" where
  "accumulate_gradient_with_states loss_and_grad_fn params states images labels accum_steps =
     (case accum_steps of
        None \<Rightarrow> Inr (loss_and_grad_fn params states images labels)
      | Some n \<Rightarrow>
         if n \<noteq> 0 \<and> n > 1 then
           if int (length images) mod n \<noteq> 0 then Inl AssertionError
           else
             (let step_size = nat (int (length images) div n) in
              case loss_and_grad_fn params states (take step_size images)
                     (take step_size labels) of ((l, s), g) \<Rightarrow>
                (case fori_loop 1 (nat n)
                        (acc_grad_and_loss loss_and_grad_fn params images labels step_size)
                        (l, s, g) of
                   Inl e \<Rightarrow> Inl e
                 | Inr (l', s', g') \<Rightarrow>
                     Inr ((l' / real_of_int n, s'), map (\<lambda>x. x / real_of_int n) g')))
         else Inr (loss_and_grad_fn params states images labels))"

text \<open>
  The accumulation as the specification words it: the batch is cut into \<open>N\<close>
  consecutive sub-batches of equal size, the loss-and-gradient function runs on each of
  them with the same parameters, the losses and the gradients are summed and the sums are
  divided by \<open>N\<close>. These definitions do not follow the code; the code is compared with
  them.
\<close>

definition sub_batch :: "nat \<Rightarrow> nat \<Rightarrow> 'a list \<Rightarrow> 'a list" where
  "sub_batch k i xs = take k (drop (i * k) xs)"

definition sub_batches :: "nat \<Rightarrow> 'x list \<Rightarrow> 'y list \<Rightarrow> ('x list \<times> 'y list) list" where
  "sub_batches N images labels =
     map (\<lambda>i. (sub_batch (length images div N) i images,
                sub_batch (length images div N) i labels)) [0..<N]"

fun run_sub_batches ::
  "('p, 's, 'x, 'y) loss_and_grad \<Rightarrow> 'p \<Rightarrow> 's \<Rightarrow> ('x list \<times> 'y list) list \<Rightarrow>
   ((real \<times> 's) \<times> grads) list" where
  "run_sub_batches f p s [] = []"
| "run_sub_batches f p s (c # cs) =
     (let r = f p s (fst c) (snd c) in r # run_sub_batches f p (snd (fst r)) cs)"

definition averaged_loss :: "((real \<times> 's) \<times> grads) list \<Rightarrow> nat \<Rightarrow> real" where
  "averaged_loss rs N = (\<Sum>r\<leftarrow>rs. fst (fst r)) / real N"

definition averaged_grads :: "((real \<times> 's) \<times> grads) list \<Rightarrow> nat \<Rightarrow> nat \<Rightarrow> grads" where
  "averaged_grads rs N n = map (\<lambda>j. (\<Sum>r\<leftarrow>rs. snd r ! j) / real N) [0..<n]"

text \<open>The auxiliary state handed from each sub-batch call to the next one.\<close>

definition thread_states ::
  "('p, 's, 'x, 'y) loss_and_grad \<Rightarrow> 'p \<Rightarrow> 's \<Rightarrow> ('x list \<times> 'y list) list \<Rightarrow> 's" where
  "thread_states f p s cs = foldl (\<lambda>s c. snd (fst (f p s (fst c) (snd c)))) s cs"

text \<open>The loss and the gradient of a result, without the auxiliary state.\<close>

definition loss_and_grads :: "error + ((real \<times> 's) \<times> grads) \<Rightarrow> error + (real \<times> grads)" where
  "loss_and_grads r = (case r of Inl e \<Rightarrow> Inl e | Inr ((l, s), g) \<Rightarrow> Inr (l, g))"

definition state_of :: "error + ((real \<times> 's) \<times> grads) \<Rightarrow> error + 's" where
  "state_of r = (case r of Inl e \<Rightarrow> Inl e | Inr ((l, s), g) \<Rightarrow> Inr s)"

text \<open>One step of the accumulation when nothing fails.\<close>

definition acc_step ::
  "('p, 's, 'x, 'y) loss_and_grad \<Rightarrow> 'p \<Rightarrow> real \<times> 's \<times> grads \<Rightarrow> 'x list \<times> 'y list \<Rightarrow>
   real \<times> 's \<times> grads" where
  "acc_step f p acc c =
     (case acc of (l, s, g) \<Rightarrow>
        (case f p s (fst c) (snd c) of ((li, si), gi) \<Rightarrow> (l + li, si, map2 (+) g gi)))"

text \<open>
  What \<open>jax.value_and_grad\<close> guarantees: the gradient has the structure of the parameters,
  here \<open>n\<close> leaves, whatever the state and the batch.
\<close>

definition grads_structure :: "('p, 's, 'x, 'y) loss_and_grad \<Rightarrow> 'p \<Rightarrow> nat \<Rightarrow> bool" where
  "grads_structure f p n = (\<forall>s xs ys. length (snd (f p s xs ys)) = n)"

text \<open>
  The states that the accumulator hands to the calls of the loss-and-gradient function,
  one per sub-batch: the initial state, then the state each call returned.
\<close>

fun states_given ::
  "('p, 's, 'x, 'y) loss_and_grad \<Rightarrow> 'p \<Rightarrow> 's \<Rightarrow> ('x list \<times> 'y list) list \<Rightarrow> 's list" where
  "states_given f p s [] = []"
| "states_given f p s (c # cs) =
     s # states_given f p (snd (fst (f p s (fst c) (snd c)))) cs"

text \<open>
  A loss that, at each of the given states, is the mean over the batch of the per-example
  loss \<open>e\<close>, with the gradient the mean of the per-example gradients \<open>d\<close>. The loss may
  read the state, as long as it is the same function of the batch at all these states.
\<close>

definition batch_mean :: "('x \<Rightarrow> 'y \<Rightarrow> real) \<Rightarrow> 'x list \<Rightarrow> 'y list \<Rightarrow> real" where
  "batch_mean e xs ys = (\<Sum>(x, y)\<leftarrow>zip xs ys. e x y) / real (length xs)"

definition mean_loss_and_grad ::
  "('p, 's, 'x, 'y) loss_and_grad \<Rightarrow> 'p \<Rightarrow> 's list \<Rightarrow> ('x \<Rightarrow> 'y \<Rightarrow> real) \<Rightarrow>
   ('x \<Rightarrow> 'y \<Rightarrow> grads) \<Rightarrow> nat \<Rightarrow> bool" where
  "mean_loss_and_grad f p states e d n =
     (\<forall>s\<in>set states. \<forall>xs ys. xs \<noteq> [] \<and> length ys = length xs \<longrightarrow>
        fst (fst (f p s xs ys)) = batch_mean e xs ys \<and>
        snd (f p s xs ys) = map (\<lambda>j. batch_mean (\<lambda>x y. d x y ! j) xs ys) [0..<n])"

text \<open>
  Loss functions used as concrete inputs below, for a one-parameter linear model
  \<open>p * x\<close> with squared error. The state counts the forward passes.
  \<open>mse_loss_and_grad\<close> is the batch mean and does not read the state;
  \<open>sse_loss_and_grad\<close> sums over the batch instead of averaging;
  \<open>stateful_loss_and_grad\<close> adds the state (the number of earlier passes) to the mean.
  The state of \<open>scaled_loss_and_grad\<close> is a pair: a scale, which the loss reads and no
  call changes, and the number of passes, which every call changes and the loss does not
  read.
\<close>

definition sq_err :: "real \<Rightarrow> real \<Rightarrow> real \<Rightarrow> real" where
  "sq_err p x y = (p * x - y) * (p * x - y)"

definition sq_err_grad :: "real \<Rightarrow> real \<Rightarrow> real \<Rightarrow> grads" where
  "sq_err_grad p x y = [2 * x * (p * x - y)]"

definition mse_loss_and_grad :: "(real, nat, real, real) loss_and_grad" where
  "mse_loss_and_grad p s xs ys =
     ((batch_mean (sq_err p) xs ys, Suc s),
      map (\<lambda>j. batch_mean (\<lambda>x y. sq_err_grad p x y ! j) xs ys) [0..<1])"

definition sse_loss_and_grad :: "(real, nat, real, real) loss_and_grad" where
  "sse_loss_and_grad p s xs ys =
     (((\<Sum>(x, y)\<leftarrow>zip xs ys. sq_err p x y), Suc s),
      [\<Sum>(x, y)\<leftarrow>zip xs ys. 2 * x * (p * x - y)])"

definition stateful_loss_and_grad :: "(real, nat, real, real) loss_and_grad" where
  "stateful_loss_and_grad p s xs ys =
     ((batch_mean (sq_err p) xs ys + real s, Suc s),
      map (\<lambda>j. batch_mean (\<lambda>x y. sq_err_grad p x y ! j) xs ys) [0..<1])"

definition scaled_loss_and_grad :: "(real, real \<times> nat, real, real) loss_and_grad" where
  "scaled_loss_and_grad p s xs ys =
     (case s of (scale, passes) \<Rightarrow>
        ((batch_mean (\<lambda>x y. scale * sq_err p x y) xs ys, (scale, Suc passes)),
         map (\<lambda>j. batch_mean (\<lambda>x y. map ((*) scale) (sq_err_grad p x y) ! j) xs ys) [0..<1]))"

subsection \<open>Configuration\<close>

text \<open>
  The fields of \<open>config\<close> that the modelled code reads. A field read with
  \<open>config.get(name)\<close> is an option, \<open>None\<close> when it is not set;
  \<open>weight_decay\<close> is unset, a number, or a list of \<open>(pattern, coefficient)\<close> rules.
\<close>

datatype weight_decay_cfg = WdUnset | WdNumber real | WdRules "(string \<times> real) list"

record config =
  checkpoint_steps :: "int option"
  keep_checkpoint_steps :: "int option"
  batch_size :: int
  batch_size_eval :: "int option"
  resume :: "string option"
  model_init :: "string option"
  weight_decay :: weight_decay_cfg
  weight_decay_decouple :: bool
  lr_base :: real

text \<open>Python truth values: \<open>None\<close>, \<open>0\<close> and the empty string are false.\<close>

definition truthy_int :: "int option \<Rightarrow> bool" where
  "truthy_int v = (case v of None \<Rightarrow> False | Some n \<Rightarrow> n \<noteq> 0)"

definition truthy_str :: "string option \<Rightarrow> bool" where
  "truthy_str v = (case v of None \<Rightarrow> False | Some s \<Rightarrow> s \<noteq> [])"

subsection \<open>Startup checks of \<open>main\<close>\<close>

text \<open>\<open>os.path.join\<close> of two components.\<close>

definition os_path_join :: "string \<Rightarrow> string \<Rightarrow> string" where
  "os_path_join a b =
     (if b \<noteq> [] \<and> hd b = CHR ''/'' then b
      else if a = [] \<or> last a = CHR ''/'' then a @ b
      else a @ ''/'' @ b)"

text \<open>The save path is built only when \<open>checkpoint_steps\<close> is set.\<close>

definition get_save_checkpoint_path :: "config \<Rightarrow> string \<Rightarrow> string option" where
  "get_save_checkpoint_path cfg output_dir =
     (if truthy_int (checkpoint_steps cfg)
      then Some (os_path_join output_dir ''checkpoint.npz'')
      else None)"

text \<open>The two assertions on \<open>keep_checkpoint_steps\<close>.\<close>

definition verify_checkpoint_settings :: "config \<Rightarrow> error + unit" where
  "verify_checkpoint_settings cfg =
     (case keep_checkpoint_steps cfg of
        None \<Rightarrow> Inr ()
      | Some keep \<Rightarrow>
          if keep = 0 then Inr ()
          else (case checkpoint_steps cfg of
                  None \<Rightarrow> Inl AssertionError
                | Some steps \<Rightarrow>
                    if steps = 0 then Inl AssertionError
                    else if keep mod steps \<noteq> 0 then Inl AssertionError
                    else Inr ()))"

text \<open>
  The batch sizes against \<open>jax.device_count()\<close>; \<open>batch_size_eval\<close> defaults to
  \<open>batch_size\<close>. The result is the pair of global batch sizes.
\<close>

definition get_batch_size_eval :: "config \<Rightarrow> int" where
  "get_batch_size_eval cfg =
     (case batch_size_eval cfg of None \<Rightarrow> batch_size cfg | Some b \<Rightarrow> b)"

definition check_batch_sizes :: "config \<Rightarrow> int \<Rightarrow> error + (int \<times> int)" where
  "check_batch_sizes cfg device_count =
     (let bs = batch_size cfg;
          bs_eval = get_batch_size_eval cfg
      in if device_count = 0 then Inl ZeroDivisionError
         else if bs mod device_count \<noteq> 0 \<or> bs_eval mod device_count \<noteq> 0
         then Inl ValueError
         else Inr (bs, bs_eval))"

subsection \<open>How training is initialised\<close>

datatype init_mode = ResumeFrom string | FromScratch

text \<open>
  \<open>file_exists\<close> is \<open>gfile.exists\<close> on the file system at startup and \<open>fillin\<close> is
  the script's path-template function; neither is defined in the script.
  \<open>ResumeFrom path\<close> says that the checkpoint is loaded from \<open>path\<close>.
\<close>

definition choose_resume_checkpoint_path ::
  "string option \<Rightarrow> (string \<Rightarrow> bool) \<Rightarrow> (string \<Rightarrow> string) \<Rightarrow> config \<Rightarrow> string option" where
  "choose_resume_checkpoint_path save_checkpoint_path file_exists fillin cfg =
     (if truthy_str save_checkpoint_path \<and> file_exists (the save_checkpoint_path)
      then save_checkpoint_path
      else if truthy_str (resume cfg) then Some (fillin (the (resume cfg)))
      else None)"

definition init_training ::
  "string option \<Rightarrow> (string \<Rightarrow> bool) \<Rightarrow> (string \<Rightarrow> string) \<Rightarrow> config \<Rightarrow> error + init_mode" where
  "init_training save_checkpoint_path file_exists fillin cfg =
     (let resume_checkpoint_path =
            choose_resume_checkpoint_path save_checkpoint_path file_exists fillin cfg
      in if truthy_str resume_checkpoint_path
         then Inr (ResumeFrom (the resume_checkpoint_path))
         else if truthy_str (model_init cfg) then Inl ValueError
         else Inr FromScratch)"

text \<open>
  \<open>main\<close> up to the first training step: the save path, the two checks, then
  everything between the batch-size check and the choice of initialisation (lines 165 to
  397: the datasets and their step counts, the model, the evaluation and update functions,
  the optimizer), then the choice of initialisation. That middle part runs code outside
  the script and can raise, for instance \<open>ZeroDivisionError\<close> where the number of
  examples is divided by a batch size of zero; it is the parameter \<open>prepare\<close>, from the
  two batch sizes to its outcome. An \<open>Inl\<close> is an exception that ends the program
  before the training loop.
\<close>

definition main_before_training ::
  "config \<Rightarrow> string \<Rightarrow> int \<Rightarrow> (string \<Rightarrow> bool) \<Rightarrow> (string \<Rightarrow> string) \<Rightarrow>
   (int \<times> int \<Rightarrow> error + unit) \<Rightarrow> error + init_mode" where
  "main_before_training cfg output_dir device_count file_exists fillin prepare =
     (let save_checkpoint_path = get_save_checkpoint_path cfg output_dir
      in case verify_checkpoint_settings cfg of
           Inl e \<Rightarrow> Inl e
         | Inr _ \<Rightarrow>
            (case check_batch_sizes cfg device_count of
               Inl e \<Rightarrow> Inl e
             | Inr sizes \<Rightarrow>
                (case prepare sizes of
                   Inl e \<Rightarrow> Inl e
                 | Inr _ \<Rightarrow> init_training save_checkpoint_path file_exists fillin cfg)))"

text \<open>A configuration used as a concrete input below.\<close>

definition example_config :: config where
  "example_config =
     \<lparr>checkpoint_steps = Some 1000, keep_checkpoint_steps = Some 5000, batch_size = 4096,
      batch_size_eval = None, resume = Some ''/other/path'', model_init = None,
      weight_decay = WdNumber (1 / 10), weight_decay_decouple = True, lr_base = 1 / 1000\<rparr>"

subsection \<open>Evaluation\<close>

text \<open>
  One device's shard of an evaluation batch: the images, a row of labels per image and a
  mask entry per image. \<open>apply_fn\<close> is \<open>model.apply\<close> with the parameters and states
  of the moment, from the images to a row of logits per image; \<open>loss_fn\<close> is the loss
  named by \<open>config.loss\<close> with \<open>reduction=False\<close>, one loss per image. Both live
  outside the script. Numbers are exact reals.
\<close>

type_synonym 'x shard = "'x list \<times> real list list \<times> real list"

text \<open>\<open>row.max()\<close> and \<open>argmax\<close> (the first index of the maximum) of a non-empty row.\<close>

definition list_max :: "real list \<Rightarrow> real" where
  "list_max row = fold max (tl row) (hd row)"

fun first_index :: "real list \<Rightarrow> real \<Rightarrow> nat" where
  "first_index [] y = 0"
| "first_index (x # xs) y = (if x = y then 0 else Suc (first_index xs y))"

definition argmax :: "real list \<Rightarrow> nat" where
  "argmax row = first_index row (list_max row)"

text \<open>
  The body of \<open>evaluation_fn\<close> on one device, before the collective sums: the mask times
  the largest label of the row, then the masked top-1 label, the masked loss and the mask.
\<close>

definition masked_stats ::
  "('x list \<Rightarrow> real list list) \<Rightarrow> (real list list \<Rightarrow> real list list \<Rightarrow> real list) \<Rightarrow>
   'x shard \<Rightarrow> real list \<times> real list \<times> real list" where
  "masked_stats apply_fn loss_fn sh =
     (case sh of (images, labels, msk) \<Rightarrow>
        (let mask' = map2 (*) msk (map list_max labels);
             logits = apply_fn images;
             losses = loss_fn logits labels;
             top1_idx = map argmax logits;
             top1_correct = map2 (\<lambda>row i. row ! i) labels top1_idx
         in (map2 (*) top1_correct mask', map2 (*) losses mask', mask')))"

text \<open>\<open>jax.lax.psum\<close> over the device axis: the entrywise sum of the devices' arrays.\<close>

definition psum :: "real list list \<Rightarrow> real list" where
  "psum vs = (case vs of [] \<Rightarrow> [] | v # rest \<Rightarrow> foldl (map2 (+)) v rest)"

text \<open>
  \<open>evaluation_fn\<close> under \<open>pmap\<close>: every device returns the same three summed arrays,
  so each result is one copy per device.
\<close>

definition evaluation_fn ::
  "('x list \<Rightarrow> real list list) \<Rightarrow> (real list list \<Rightarrow> real list list \<Rightarrow> real list) \<Rightarrow>
   'x shard list \<Rightarrow> real list list \<times> real list list \<times> real list list" where
  "evaluation_fn apply_fn loss_fn shards =
     (let per_device = map (masked_stats apply_fn loss_fn) shards;
          ncorrect = psum (map fst per_device);
          loss = psum (map (\<lambda>r. fst (snd r)) per_device);
          n = psum (map (\<lambda>r. snd (snd r)) per_device);
          devices = length shards
      in (replicate devices ncorrect, replicate devices loss, replicate devices n))"

text \<open>
  The host-side accumulators start as the Python integer \<open>0\<close> and become numpy floats
  with the first \<open>+=\<close>. Dividing Python integers by zero raises; a numpy division by zero
  returns \<open>nan\<close> or an infinity.
\<close>

datatype pynum = PyInt int | NpFloat real

datatype metric = Value real | NaN | PosInf | NegInf

definition py_iadd :: "pynum \<Rightarrow> real \<Rightarrow> pynum" where
  "py_iadd a x = (case a of PyInt i \<Rightarrow> NpFloat (real_of_int i + x) | NpFloat r \<Rightarrow> NpFloat (r + x))"

definition np_divide :: "real \<Rightarrow> real \<Rightarrow> metric" where
  "np_divide a b =
     (if b \<noteq> 0 then Value (a / b)
      else if a = 0 then NaN
      else if 0 < a then PosInf
      else NegInf)"

definition py_truediv :: "pynum \<Rightarrow> pynum \<Rightarrow> error + metric" where
  "py_truediv a b =
     (case (a, b) of
        (PyInt i, PyInt j) \<Rightarrow>
          if j = 0 then Inl ZeroDivisionError
          else Inr (Value (real_of_int i / real_of_int j))
      | (PyInt i, NpFloat y) \<Rightarrow> Inr (np_divide (real_of_int i) y)
      | (NpFloat x, PyInt j) \<Rightarrow> Inr (np_divide x (real_of_int j))
      | (NpFloat x, NpFloat y) \<Rightarrow> Inr (np_divide x y))"

text \<open>
  \<open>val_steps\<close> of \<open>_get_val_split\<close>: the number of examples over the evaluation batch
  size, rounded up.
\<close>

definition get_val_steps :: "int \<Rightarrow> int \<Rightarrow> error + nat" where
  "get_val_steps nval_img bs_eval =
     (if bs_eval = 0 then Inl ZeroDivisionError
      else Inr (nat \<lceil>real_of_int nval_img / real_of_int bs_eval\<rceil>))"

text \<open>
  The validation loop of \<open>main\<close> for one split: at most \<open>val_steps\<close> batches are
  taken from the iterator and the three sums accumulated from device 0's copy; the result
  is \<open>(ncorrect / nseen, loss / nseen)\<close>, the precision and the loss that are reported.
\<close>

definition accumulate_batch ::
  "('x list \<Rightarrow> real list list) \<Rightarrow> (real list list \<Rightarrow> real list list \<Rightarrow> real list) \<Rightarrow>
   pynum \<times> pynum \<times> pynum \<Rightarrow> 'x shard list \<Rightarrow> pynum \<times> pynum \<times> pynum" where
  "accumulate_batch apply_fn loss_fn acc batch =
     (case acc of (ncorrect, loss, nseen) \<Rightarrow>
        (case evaluation_fn apply_fn loss_fn batch of
           (batch_ncorrect, batch_losses, batch_n) \<Rightarrow>
             (py_iadd ncorrect (sum_list (hd batch_ncorrect)),
              py_iadd loss (sum_list (hd batch_losses)),
              py_iadd nseen (sum_list (hd batch_n)))))"

definition evaluate_split ::
  "('x list \<Rightarrow> real list list) \<Rightarrow> (real list list \<Rightarrow> real list list \<Rightarrow> real list) \<Rightarrow>
   nat \<Rightarrow> 'x shard list list \<Rightarrow> error + (metric \<times> metric)" where
  "evaluate_split apply_fn loss_fn val_steps val_iter =
     (case foldl (accumulate_batch apply_fn loss_fn) (PyInt 0, PyInt 0, PyInt 0)
             (take val_steps val_iter) of
        (ncorrect, loss, nseen) \<Rightarrow>
          (case py_truediv loss nseen of
             Inl e \<Rightarrow> Inl e
           | Inr val_loss \<Rightarrow>
               (case py_truediv ncorrect nseen of
                  Inl e \<Rightarrow> Inl e
                | Inr prec \<Rightarrow> Inr (prec, val_loss))))"

text \<open>
  The totals that the specification names: over all evaluated batches, devices and
  entries, the mask after the all-zero-label rule, the masked count of correct top-1
  predictions and the masked loss.
\<close>

definition entry_mask :: "real \<Rightarrow> real list \<Rightarrow> real" where
  "entry_mask m label_row = m * list_max label_row"

definition shard_count :: "'x shard \<Rightarrow> real" where
  "shard_count sh =
     (case sh of (images, labels, msk) \<Rightarrow>
        (\<Sum>j\<leftarrow>[0..<length msk]. entry_mask (msk ! j) (labels ! j)))"

definition shard_correct :: "('x list \<Rightarrow> real list list) \<Rightarrow> 'x shard \<Rightarrow> real" where
  "shard_correct apply_fn sh =
     (case sh of (images, labels, msk) \<Rightarrow>
        (\<Sum>j\<leftarrow>[0..<length msk].
            (labels ! j) ! argmax (apply_fn images ! j) * entry_mask (msk ! j) (labels ! j)))"

definition shard_loss ::
  "('x list \<Rightarrow> real list list) \<Rightarrow> (real list list \<Rightarrow> real list list \<Rightarrow> real list) \<Rightarrow>
   'x shard \<Rightarrow> real" where
  "shard_loss apply_fn loss_fn sh =
     (case sh of (images, labels, msk) \<Rightarrow>
        (\<Sum>j\<leftarrow>[0..<length msk].
            loss_fn (apply_fn images) labels ! j * entry_mask (msk ! j) (labels ! j)))"

definition total_over :: "('x shard \<Rightarrow> real) \<Rightarrow> 'x shard list list \<Rightarrow> real" where
  "total_over q batches = (\<Sum>batch\<leftarrow>batches. \<Sum>sh\<leftarrow>batch. q sh)"

text \<open>
  A well-shaped batch: at least one device, and on every device \<open>b\<close> images with
  \<open>b\<close> label rows, mask entries, logit rows and losses.
\<close>

definition shaped_shard ::
  "('x list \<Rightarrow> real list list) \<Rightarrow> (real list list \<Rightarrow> real list list \<Rightarrow> real list) \<Rightarrow>
   nat \<Rightarrow> 'x shard \<Rightarrow> bool" where
  "shaped_shard apply_fn loss_fn b sh =
     (case sh of (images, labels, msk) \<Rightarrow>
        length images = b \<and> length labels = b \<and> length msk = b \<and>
        length (apply_fn images) = b \<and> length (loss_fn (apply_fn images) labels) = b)"

definition shaped_batch ::
  "('x list \<Rightarrow> real list list) \<Rightarrow> (real list list \<Rightarrow> real list list \<Rightarrow> real list) \<Rightarrow>
   nat \<Rightarrow> 'x shard list \<Rightarrow> bool" where
  "shaped_batch apply_fn loss_fn b batch =
     (batch \<noteq> [] \<and> list_all (shaped_shard apply_fn loss_fn b) batch)"

text \<open>
  Concrete inputs used below. The images are their own rows of logits over two classes
  and every example has loss \<open>1/2\<close>. \<open>example_batch\<close> has two devices with five
  entries each: all five entries of the first device are valid and three of them are
  predicted correctly; on the second device three entries are valid and correct, one has
  all-zero labels and one is masked out as padding. \<open>masked_out_batch\<close> has one device
  on which every entry is masked out.
\<close>

definition example_apply_fn :: "real list list \<Rightarrow> real list list" where
  "example_apply_fn images = images"

definition example_loss_fn :: "real list list \<Rightarrow> real list list \<Rightarrow> real list" where
  "example_loss_fn logits labels = map (\<lambda>row. 1 / 2) logits"

definition example_batch :: "real list shard list" where
  "example_batch =
     [([[2, 1], [1, 2], [2, 1], [2, 1], [1, 2]],
       [[1, 0], [0, 1], [1, 0], [0, 1], [1, 0]],
       [1, 1, 1, 1, 1]),
      ([[2, 1], [1, 2], [2, 1], [2, 1], [1, 2]],
       [[1, 0], [0, 1], [1, 0], [0, 0], [0, 1]],
       [1, 1, 1, 1, 0])]"

definition masked_out_batch :: "real list shard list" where
  "masked_out_batch = [([[2, 1], [1, 2]], [[1, 0], [0, 1]], [0, 0])]"

subsection \<open>Weight decay in the update step\<close>

text \<open>
  The optimizer target is the list of its named leaves, every leaf the list of its
  entries. \<open>decay_rules\<close> is \<open>config.get('weight_decay', []) or []\<close> with a number
  turned into the single rule on \<open>.*kernel.*\<close>; \<open>sched_m\<close> is the effective rate.
\<close>

type_synonym target = "(string \<times> real list) list"

definition decay_rules :: "config \<Rightarrow> (string \<times> real) list" where
  "decay_rules cfg =
     (case weight_decay cfg of
        WdUnset \<Rightarrow> []
      | WdNumber w \<Rightarrow> if w = 0 then [] else [(''.*kernel.*'', w)]
      | WdRules rules \<Rightarrow> rules)"

definition sched_m :: "config \<Rightarrow> real \<Rightarrow> real" where
  "sched_m cfg lr = (if weight_decay_decouple cfg then lr / lr_base cfg else lr)"

definition decay_fn :: "real \<Rightarrow> real list \<Rightarrow> real \<Rightarrow> real list" where
  "decay_fn m v wd = map (\<lambda>x. (1 - m * wd) * x) v"

text \<open>
  Modelled from the spec: \<open>u.tree_map_with_regex\<close> is not among the sources. The
  specification has the function applied to each parameter whose name matches a
  configured rule, with that rule's coefficient, and suggests that the first matching
  rule wins; a parameter that matches no rule is left as it is. \<open>re_match pattern name\<close>
  is the regular-expression match, which the script takes from Python's library.
\<close>

definition tree_map_with_regex ::
  "(string \<Rightarrow> string \<Rightarrow> bool) \<Rightarrow> (real list \<Rightarrow> real \<Rightarrow> real list) \<Rightarrow> target \<Rightarrow>
   (string \<times> real) list \<Rightarrow> target" where
  "tree_map_with_regex re_match f tree regex_rules =
     map (\<lambda>(name, v).
            case find (\<lambda>(pattern, arg). re_match pattern name) regex_rules of
              None \<Rightarrow> (name, v)
            | Some (pattern, arg) \<Rightarrow> (name, f v arg)) tree"

text \<open>The decay step of \<open>update_fn\<close>, after the optimizer has applied the gradient.\<close>

definition apply_weight_decay ::
  "(string \<Rightarrow> string \<Rightarrow> bool) \<Rightarrow> config \<Rightarrow> real \<Rightarrow> target \<Rightarrow> target" where
  "apply_weight_decay re_match cfg lr opt_target =
     tree_map_with_regex re_match (decay_fn (sched_m cfg lr)) opt_target (decay_rules cfg)"

text \<open>
  A matcher for concrete inputs: it knows the patterns \<open>.*word.*\<close> with a literal
  \<open>word\<close>, which match the names that contain the word.
\<close>

fun is_prefix :: "string \<Rightarrow> string \<Rightarrow> bool" where
  "is_prefix [] ys = True"
| "is_prefix (x # xs) [] = False"
| "is_prefix (x # xs) (y # ys) = (x = y \<and> is_prefix xs ys)"

fun contains :: "string \<Rightarrow> string \<Rightarrow> bool" where
  "contains pat [] = is_prefix pat []"
| "contains pat (y # ys) = (is_prefix pat (y # ys) \<or> contains pat ys)"

definition wildcard_match :: "string \<Rightarrow> string \<Rightarrow> bool" where
  "wildcard_match pattern name =
     (4 \<le> length pattern \<and> take 2 pattern = ''.*'' \<and>
      drop (length pattern - 2) pattern = ''.*'' \<and>
      contains (take (length pattern - 4) (drop 2 pattern)) name)"

section \<open>Properties\<close>

subsection \<open>Startup checks\<close>

text \<open>
  C10. When \<open>keep_checkpoint_steps\<close> is configured, the checkpoint settings pass
  exactly when \<open>checkpoint_steps\<close> is configured too and \<open>keep_checkpoint_steps\<close>
  is a multiple of it; otherwise an assertion fails, and \<open>main\<close> ends with it before
  training is initialised.
\<close>

theorem keep_checkpoint_steps_checked:
  assumes "truthy_int (keep_checkpoint_steps cfg)"
  shows "(verify_checkpoint_settings cfg = Inr ()) =
           (truthy_int (checkpoint_steps cfg) \<and>
            the (keep_checkpoint_steps cfg) mod the (checkpoint_steps cfg) = 0) \<and>
         (verify_checkpoint_settings cfg \<noteq> Inr () \<longrightarrow>
            verify_checkpoint_settings cfg = Inl AssertionError \<and>
            main_before_training cfg output_dir device_count file_exists fillin prepare =
              Inl AssertionError)"
  using assms
  by (auto simp: verify_checkpoint_settings_def truthy_int_def main_before_training_def
           split: option.splits)

theorem keep_checkpoint_steps_checked_witness:
  "verify_checkpoint_settings example_config = Inr () \<and>
   main_before_training (example_config\<lparr>keep_checkpoint_steps := Some 1500\<rparr>)
     ''/out'' 8 (\<lambda>path. False) id (\<lambda>sizes. Inr ()) = Inl AssertionError \<and>
   main_before_training (example_config\<lparr>checkpoint_steps := None\<rparr>)
     ''/out'' 8 (\<lambda>path. False) id (\<lambda>sizes. Inr ()) = Inl AssertionError"
  using keep_checkpoint_steps_checked [of example_config]
    keep_checkpoint_steps_checked
      [of "example_config\<lparr>keep_checkpoint_steps := Some 1500\<rparr>" "''/out''" 8 "\<lambda>path. False" id
          "\<lambda>sizes. Inr ()"]
    keep_checkpoint_steps_checked
      [of "example_config\<lparr>checkpoint_steps := None\<rparr>" "''/out''" 8 "\<lambda>path. False" id
          "\<lambda>sizes. Inr ()"]
  by (simp add: example_config_def truthy_int_def)

text \<open>
  C7. With an accumulation factor above 1 that does not divide the batch size, the
  accumulator fails on its assertion. With a global training or evaluation batch size
  that the device count does not divide, the batch-size check raises \<open>ValueError\<close>, and
  \<open>main\<close> ends with an exception before training is initialised: that
  \<open>ValueError\<close>, unless the checkpoint settings have already failed their assertion.
\<close>

theorem indivisible_batch_size_is_fatal:
  "(1 < n \<and> int (length images) mod n \<noteq> 0 \<longrightarrow>
      accumulate_gradient_with_states f p s images labels (Some n) = Inl AssertionError) \<and>
   (0 < device_count \<and>
    (batch_size cfg mod device_count \<noteq> 0 \<or> get_batch_size_eval cfg mod device_count \<noteq> 0) \<longrightarrow>
      check_batch_sizes cfg device_count = Inl ValueError \<and>
      main_before_training cfg output_dir device_count file_exists fillin prepare =
        (if verify_checkpoint_settings cfg = Inr () then Inl ValueError
         else Inl AssertionError))"
  by (auto simp: accumulate_gradient_with_states_def check_batch_sizes_def
        main_before_training_def verify_checkpoint_settings_def split: sum.splits option.splits)

theorem indivisible_batch_size_is_fatal_witness:
  "accumulate_gradient_with_states mse_loss_and_grad 1 0 [1, 2, 3] [0, 0, 0] (Some 2) =
     Inl AssertionError \<and>
   check_batch_sizes (example_config\<lparr>batch_size := 100\<rparr>) 8 = Inl ValueError \<and>
   main_before_training (example_config\<lparr>batch_size := 100\<rparr>) ''/out'' 8 (\<lambda>path. False) id
     (\<lambda>sizes. Inr ()) = Inl ValueError \<and>
   main_before_training (example_config\<lparr>batch_size_eval := Some 12\<rparr>) ''/out'' 8
     (\<lambda>path. False) id (\<lambda>sizes. Inr ()) = Inl ValueError"
  using indivisible_batch_size_is_fatal
      [of 2 "[1, 2, 3]" mse_loss_and_grad 1 0 "[0, 0, 0]" 8
          "example_config\<lparr>batch_size := 100\<rparr>" "''/out''" "\<lambda>path. False" id
          "\<lambda>sizes. Inr ()"]
    indivisible_batch_size_is_fatal
      [of 2 "[1, 2, 3]" mse_loss_and_grad 1 0 "[0, 0, 0]" 8
          "example_config\<lparr>batch_size_eval := Some 12\<rparr>" "''/out''" "\<lambda>path. False" id
          "\<lambda>sizes. Inr ()"]
  by (simp add: example_config_def get_batch_size_eval_def verify_checkpoint_settings_def)

subsection \<open>Resume precedence\<close>

lemma os_path_join_checkpoint: "os_path_join output_dir ''checkpoint.npz'' \<noteq> []"
  by (simp add: os_path_join_def)

text \<open>
  C2, as amended. The initialisation is chosen by the first rule that applies: (a)
  \<open>checkpoint_steps\<close> is set and a checkpoint exists at \<open>checkpoint.npz\<close> in the
  output directory, and training resumes from it, whether or not \<open>config.resume\<close> is
  set as well; (b) otherwise \<open>config.resume\<close> is set, and training resumes from that
  path; (c) otherwise \<open>config.model_init\<close> is set, and the program raises
  \<open>ValueError\<close>; (d) otherwise training starts from scratch. The path-template function
  is taken to return a path, that is, a non-empty string.
\<close>

theorem resume_precedence:
  assumes fillin: "\<And>path. path \<noteq> [] \<Longrightarrow> fillin path \<noteq> []"
  shows
   "(truthy_int (checkpoint_steps cfg) \<and> file_exists (os_path_join output_dir ''checkpoint.npz'') \<longrightarrow>
       init_training (get_save_checkpoint_path cfg output_dir) file_exists fillin cfg =
         Inr (ResumeFrom (os_path_join output_dir ''checkpoint.npz''))) \<and>
    (\<not> (truthy_int (checkpoint_steps cfg) \<and>
        file_exists (os_path_join output_dir ''checkpoint.npz'')) \<and>
     truthy_str (resume cfg) \<longrightarrow>
       init_training (get_save_checkpoint_path cfg output_dir) file_exists fillin cfg =
         Inr (ResumeFrom (fillin (the (resume cfg))))) \<and>
    (\<not> (truthy_int (checkpoint_steps cfg) \<and>
        file_exists (os_path_join output_dir ''checkpoint.npz'')) \<and>
     \<not> truthy_str (resume cfg) \<and> truthy_str (model_init cfg) \<longrightarrow>
       init_training (get_save_checkpoint_path cfg output_dir) file_exists fillin cfg =
         Inl ValueError) \<and>
    (\<not> (truthy_int (checkpoint_steps cfg) \<and>
        file_exists (os_path_join output_dir ''checkpoint.npz'')) \<and>
     \<not> truthy_str (resume cfg) \<and> \<not> truthy_str (model_init cfg) \<longrightarrow>
       init_training (get_save_checkpoint_path cfg output_dir) file_exists fillin cfg =
         Inr FromScratch)"
  using fillin os_path_join_checkpoint [of output_dir]
  by (auto simp: init_training_def choose_resume_checkpoint_path_def get_save_checkpoint_path_def
        truthy_str_def split: option.splits)

theorem resume_precedence_witness:
  "init_training (get_save_checkpoint_path example_config ''/out'')
     (\<lambda>path. path = ''/out/checkpoint.npz'') id example_config =
     Inr (ResumeFrom ''/out/checkpoint.npz'') \<and>
   init_training (get_save_checkpoint_path example_config ''/out'')
     (\<lambda>path. False) id example_config = Inr (ResumeFrom ''/other/path'') \<and>
   init_training (get_save_checkpoint_path (example_config\<lparr>checkpoint_steps := None\<rparr>) ''/out'')
     (\<lambda>path. path = ''/out/checkpoint.npz'') id (example_config\<lparr>checkpoint_steps := None\<rparr>) =
     Inr (ResumeFrom ''/other/path'') \<and>
   init_training
     (get_save_checkpoint_path
        (example_config\<lparr>resume := None, model_init := Some ''/some/model''\<rparr>) ''/out'')
     (\<lambda>path. False) id
     (example_config\<lparr>resume := None, model_init := Some ''/some/model''\<rparr>) = Inl ValueError \<and>
   init_training (get_save_checkpoint_path (example_config\<lparr>resume := None\<rparr>) ''/out'')
     (\<lambda>path. False) id (example_config\<lparr>resume := None\<rparr>) = Inr FromScratch"
proof -
  have fillin: "\<And>path :: string. path \<noteq> [] \<Longrightarrow> id path \<noteq> []" by simp
  note t = resume_precedence [where fillin = id and output_dir = "''/out''", OF fillin]
  show ?thesis
    using t [where cfg = example_config and file_exists = "\<lambda>path. path = ''/out/checkpoint.npz''"]
      t [where cfg = example_config and file_exists = "\<lambda>path. False"]
      t [where cfg = "example_config\<lparr>checkpoint_steps := None\<rparr>"
           and file_exists = "\<lambda>path. path = ''/out/checkpoint.npz''"]
      t [where cfg = "example_config\<lparr>resume := None, model_init := Some ''/some/model''\<rparr>"
           and file_exists = "\<lambda>path. False"]
      t [where cfg = "example_config\<lparr>resume := None\<rparr>" and file_exists = "\<lambda>path. False"]
    by (simp add: example_config_def truthy_int_def truthy_str_def os_path_join_def)
qed

text \<open>
  Without the condition on \<open>checkpoint_steps\<close> rule (a) fails: with
  \<open>checkpoint.npz\<close> in the output directory and \<open>config.resume\<close> set to another path,
  a run that does not set \<open>checkpoint_steps\<close> resumes from the other path.
\<close>

theorem resume_precedence_counterexample:
  "os_path_join ''/out'' ''checkpoint.npz'' = ''/out/checkpoint.npz'' \<and>
   resume (example_config\<lparr>checkpoint_steps := None\<rparr>) = Some ''/other/path'' \<and>
   init_training (get_save_checkpoint_path (example_config\<lparr>checkpoint_steps := None\<rparr>) ''/out'')
     (\<lambda>path. path = ''/out/checkpoint.npz'') id (example_config\<lparr>checkpoint_steps := None\<rparr>) =
     Inr (ResumeFrom ''/other/path'') \<and>
   main_before_training (example_config\<lparr>checkpoint_steps := None, keep_checkpoint_steps := None\<rparr>)
     ''/out'' 8 (\<lambda>path. path = ''/out/checkpoint.npz'') id (\<lambda>sizes. Inr ()) =
     Inr (ResumeFrom ''/other/path'')"
  by (simp add: example_config_def init_training_def choose_resume_checkpoint_path_def
        get_save_checkpoint_path_def main_before_training_def verify_checkpoint_settings_def
        check_batch_sizes_def get_batch_size_eval_def truthy_int_def truthy_str_def
        os_path_join_def)

text \<open>
  C9. Rule (a) needs \<open>checkpoint_steps\<close>: without it no save path is built, a
  checkpoint file in the output directory changes nothing, in \<open>main\<close> as a whole as in
  the choice of initialisation, and the choice falls to \<open>config.resume\<close>,
  \<open>config.model_init\<close> or a start from scratch. With \<open>checkpoint_steps\<close> set, an
  existing \<open>checkpoint.npz\<close> in the output directory is the checkpoint resumed.
\<close>

theorem output_checkpoint_needs_checkpoint_steps:
  "(\<not> truthy_int (checkpoint_steps cfg) \<longrightarrow>
      main_before_training cfg output_dir device_count file_exists fillin prepare =
        main_before_training cfg output_dir device_count (\<lambda>path. False) fillin prepare \<and>
      init_training (get_save_checkpoint_path cfg output_dir) file_exists fillin cfg =
        (if truthy_str (resume cfg) \<and> fillin (the (resume cfg)) \<noteq> []
         then Inr (ResumeFrom (fillin (the (resume cfg))))
         else if truthy_str (model_init cfg) then Inl ValueError
         else Inr FromScratch)) \<and>
   (truthy_int (checkpoint_steps cfg) \<and> file_exists (os_path_join output_dir ''checkpoint.npz'') \<longrightarrow>
      init_training (get_save_checkpoint_path cfg output_dir) file_exists fillin cfg =
        Inr (ResumeFrom (os_path_join output_dir ''checkpoint.npz'')))"
  by (auto simp: get_save_checkpoint_path_def init_training_def
        choose_resume_checkpoint_path_def main_before_training_def truthy_str_def os_path_join_def
        split: option.splits sum.splits)

theorem output_checkpoint_needs_checkpoint_steps_witness:
  "init_training (get_save_checkpoint_path (example_config\<lparr>checkpoint_steps := None\<rparr>) ''/out'')
     (\<lambda>path. path = ''/out/checkpoint.npz'') id (example_config\<lparr>checkpoint_steps := None\<rparr>) =
     Inr (ResumeFrom ''/other/path'') \<and>
   init_training
     (get_save_checkpoint_path (example_config\<lparr>checkpoint_steps := None, resume := None\<rparr>) ''/out'')
     (\<lambda>path. path = ''/out/checkpoint.npz'') id
     (example_config\<lparr>checkpoint_steps := None, resume := None\<rparr>) = Inr FromScratch \<and>
   init_training (get_save_checkpoint_path example_config ''/out'')
     (\<lambda>path. path = ''/out/checkpoint.npz'') id example_config =
     Inr (ResumeFrom ''/out/checkpoint.npz'')"
  using output_checkpoint_needs_checkpoint_steps
      [where cfg = "example_config\<lparr>checkpoint_steps := None\<rparr>" and output_dir = "''/out''"
         and device_count = 8 and file_exists = "\<lambda>path. path = ''/out/checkpoint.npz''"
         and fillin = id]
    output_checkpoint_needs_checkpoint_steps
      [where cfg = "example_config\<lparr>checkpoint_steps := None, resume := None\<rparr>"
         and output_dir = "''/out''" and device_count = 8
         and file_exists = "\<lambda>path. path = ''/out/checkpoint.npz''" and fillin = id]
    output_checkpoint_needs_checkpoint_steps
      [where cfg = example_config and output_dir = "''/out''" and device_count = 8
         and file_exists = "\<lambda>path. path = ''/out/checkpoint.npz''" and fillin = id]
  by (simp add: example_config_def truthy_int_def truthy_str_def os_path_join_def)

subsection \<open>Gradient accumulation\<close>

text \<open>The loop of the accumulator is a fold of \<open>acc_step\<close> over the sub-batches.\<close>

lemma grads_structureD: "grads_structure f p n \<Longrightarrow> length (snd (f p s xs ys)) = n"
  by (simp add: grads_structure_def)

lemma dynamic_slice_in_range:
  "start + k \<le> length xs \<Longrightarrow> dynamic_slice xs start k = Inr (take k (drop start xs))"
proof -
  assume a: "start + k \<le> length xs"
  then have "min start (length xs - k) = start" by simp
  then show ?thesis using a by (simp add: dynamic_slice_def)
qed

lemma acc_grad_and_loss_step:
  assumes "Suc i * k \<le> length images" "Suc i * k \<le> length labels"
    and "grads_structure f p n" and "length g = n"
  shows "acc_grad_and_loss f p images labels k i (l, s, g) =
         Inr (acc_step f p (l, s, g) (sub_batch k i images, sub_batch k i labels))"
proof -
  have a: "i * k + k \<le> length images" "i * k + k \<le> length labels"
    using assms(1,2) by (simp_all add: algebra_simps)
  obtain li si gi where r: "f p s (take k (drop (i * k) images)) (take k (drop (i * k) labels)) = ((li, si), gi)"
    by (metis prod.collapse)
  have "length gi = n" using grads_structureD[OF assms(3), of s "take k (drop (i * k) images)" "take k (drop (i * k) labels)"] r by simp
  then show ?thesis
    using a r assms(4)
    by (simp add: acc_grad_and_loss_def dynamic_slice_in_range acc_step_def sub_batch_def tree_add_def)
qed

lemma acc_step_length:
  assumes "grads_structure f p n" and "length g = n"
  shows "length (snd (snd (acc_step f p (l, s, g) c))) = n"
  using grads_structureD[OF assms(1), of s "fst c" "snd c"] assms(2)
  by (auto simp: acc_step_def split: prod.splits)

lemma fori_loop_foldl:
  assumes "N * k \<le> length images" "N * k \<le> length labels"
    and "grads_structure f p n"
  shows "i \<le> N \<Longrightarrow> length g = n \<Longrightarrow>
         fori_loop i N (acc_grad_and_loss f p images labels k) (l, s, g) =
         Inr (foldl (acc_step f p) (l, s, g)
               (map (\<lambda>i. (sub_batch k i images, sub_batch k i labels)) [i..<N]))"
proof (induction "N - i" arbitrary: i l s g)
  case 0
  then show ?case by (simp add: fori_loop.simps)
next
  case (Suc d)
  then have lt: "i < N" by simp
  then have "Suc i * k \<le> N * k" by (intro mult_le_mono1) simp
  then have b: "Suc i * k \<le> length images" "Suc i * k \<le> length labels"
    using assms(1,2) by linarith+
  obtain l' s' g' where st: "acc_step f p (l, s, g) (sub_batch k i images, sub_batch k i labels) = (l', s', g')"
    by (metis prod.collapse)
  have len: "length g' = n"
    using acc_step_length[OF assms(3) Suc.prems(2), of l s "(sub_batch k i images, sub_batch k i labels)"] st by simp
  have body: "acc_grad_and_loss f p images labels k i (l, s, g) = Inr (l', s', g')"
    using acc_grad_and_loss_step[OF b assms(3) Suc.prems(2)] st by simp
  have ih: "fori_loop (Suc i) N (acc_grad_and_loss f p images labels k) (l', s', g') =
         Inr (foldl (acc_step f p) (l', s', g')
               (map (\<lambda>i. (sub_batch k i images, sub_batch k i labels)) [Suc i..<N]))"
    using Suc.hyps(1)[of "Suc i" g' l' s'] Suc.hyps(2) lt len by simp
  have "fori_loop i N (acc_grad_and_loss f p images labels k) (l, s, g) =
        fori_loop (Suc i) N (acc_grad_and_loss f p images labels k) (l', s', g')"
    using lt body by (subst fori_loop.simps) simp
  then show ?case
    using ih st lt by (simp add: upt_conv_Cons)
qed

lemma map2_add_nth:
  "length g = n \<Longrightarrow> length gi = n \<Longrightarrow> map2 (+) g gi = map (\<lambda>j. g ! j + gi ! j) [0..<n]"
  by (rule nth_equalityI) simp_all

lemma foldl_acc_step:
  assumes gs: "grads_structure f p n"
  shows "length g = n \<Longrightarrow>
         foldl (acc_step f p) (l, s, g) cs =
           (l + sum_list (map (\<lambda>r. fst (fst r)) (run_sub_batches f p s cs)),
            thread_states f p s cs,
            map (\<lambda>j. g ! j + (\<Sum>r\<leftarrow>run_sub_batches f p s cs. snd r ! j)) [0..<n])"
proof (induction cs arbitrary: l s g)
  case Nil
  then show ?case by (auto simp: thread_states_def intro: nth_equalityI)
next
  case (Cons c cs)
  obtain li si gi where r: "f p s (fst c) (snd c) = ((li, si), gi)"
    by (metis prod.collapse)
  have lgi: "length gi = n"
    using grads_structureD[OF gs, of s "fst c" "snd c"] r by simp
  have st: "acc_step f p (l, s, g) c = (l + li, si, map (\<lambda>j. g ! j + gi ! j) [0..<n])"
    using r map2_add_nth[OF Cons.prems lgi] by (simp add: acc_step_def)
  have ih: "foldl (acc_step f p) (l + li, si, map (\<lambda>j. g ! j + gi ! j) [0..<n]) cs =
           (l + li + sum_list (map (\<lambda>r. fst (fst r)) (run_sub_batches f p si cs)),
            thread_states f p si cs,
            map (\<lambda>j. map (\<lambda>j. g ! j + gi ! j) [0..<n] ! j +
                      (\<Sum>r\<leftarrow>run_sub_batches f p si cs. snd r ! j)) [0..<n])"
    by (rule Cons.IH) simp
  have m: "map (\<lambda>j. map (\<lambda>j. g ! j + gi ! j) [0..<n] ! j +
                      (\<Sum>r\<leftarrow>run_sub_batches f p si cs. snd r ! j)) [0..<n] =
           map (\<lambda>j. g ! j + (gi ! j + (\<Sum>r\<leftarrow>run_sub_batches f p si cs. snd r ! j))) [0..<n]"
    by (rule map_cong) simp_all
  show ?case
    using st ih m r by (simp add: thread_states_def add.assoc)
qed

lemma accumulate_sub_batches:
  assumes N: "1 < N" and dv: "N dvd length images" and lab: "length labels = length images"
    and gs: "grads_structure f p n"
  shows "accumulate_gradient_with_states f p s images labels (Some (int N)) =
         Inr ((averaged_loss (run_sub_batches f p s (sub_batches N images labels)) N,
               thread_states f p s (sub_batches N images labels)),
              averaged_grads (run_sub_batches f p s (sub_batches N images labels)) N n)"
proof -
  define k where "k = length images div N"
  have kN: "N * k = length images" using dv by (simp add: k_def)
  have md: "int (length images) mod int N = 0" using dv by (metis zmod_int mod_0_imp_dvd dvd_imp_mod_0 of_nat_0)
  have ss: "nat (int (length images) div int N) = k" by (simp add: k_def zdiv_int[symmetric])
  define c0 where "c0 = (sub_batch k 0 images, sub_batch k 0 labels)"
  obtain l0 s0 g0 where r0: "f p s (take k images) (take k labels) = ((l0, s0), g0)"
    by (metis prod.collapse)
  have lg0: "length g0 = n" using grads_structureD[OF gs, of s "take k images" "take k labels"] r0 by simp
  define rest where "rest = map (\<lambda>i. (sub_batch k i images, sub_batch k i labels)) [1..<N]"
  have sb: "sub_batches N images labels = c0 # rest"
    using N by (simp add: sub_batches_def k_def[symmetric] c0_def rest_def upt_conv_Cons)
  have loop: "fori_loop 1 N (acc_grad_and_loss f p images labels k) (l0, s0, g0) =
              Inr (foldl (acc_step f p) (l0, s0, g0) rest)"
    unfolding rest_def
    by (rule fori_loop_foldl[OF _ _ gs]) (use kN lab N lg0 in simp_all)
  have run: "run_sub_batches f p s (c0 # rest) = ((l0, s0), g0) # run_sub_batches f p s0 rest"
    using r0 by (simp add: c0_def sub_batch_def)
  have thr: "thread_states f p s (c0 # rest) = thread_states f p s0 rest"
    using r0 by (simp add: thread_states_def c0_def sub_batch_def)
  have gm: "map (\<lambda>x. x / real N) (map (\<lambda>j. g0 ! j + (\<Sum>r\<leftarrow>run_sub_batches f p s0 rest. snd r ! j)) [0..<n]) =
        averaged_grads (((l0, s0), g0) # run_sub_batches f p s0 rest) N n"
    by (simp add: averaged_grads_def)
  show ?thesis
    unfolding sb run thr
    using N md ss r0 loop foldl_acc_step[OF gs lg0, of l0 s0 rest] gm
    by (simp add: accumulate_gradient_with_states_def averaged_loss_def)
qed

text \<open>
  For a batch-mean loss the mean of the sub-batch means is the mean over the batch.
\<close>

lemma sum_list_divide_const:
  "(\<Sum>x\<leftarrow>xs. g x / c) = (\<Sum>x\<leftarrow>xs. g x) / (c::real)"
  by (induction xs) (simp_all add: add_divide_distrib)

lemma sum_sub_batches:
  "(\<Sum>i\<leftarrow>[0..<N]. sum_list (map h (sub_batch k i zs))) = sum_list (map h (take (N * k) zs))"
proof (induction N)
  case 0
  then show ?case by simp
next
  case (Suc N)
  have "take (Suc N * k) zs = take (N * k) zs @ take k (drop (N * k) zs)"
    using take_add[of "N * k" k zs] by (simp add: add.commute)
  then show ?case using Suc by (simp add: sub_batch_def)
qed

lemma sub_batch_zip: "sub_batch k i (zip xs ys) = zip (sub_batch k i xs) (sub_batch k i ys)"
  by (simp add: sub_batch_def take_zip drop_zip)

lemma length_sub_batch:
  "i < N \<Longrightarrow> N * k = length xs \<Longrightarrow> length (sub_batch k i xs) = k"
proof -
  assume a: "i < N" "N * k = length xs"
  then have "Suc i * k \<le> N * k" by (intro mult_le_mono1) simp
  then have "i * k + k \<le> length xs" using a by (simp add: add.commute)
  then show ?thesis by (simp add: sub_batch_def)
qed

lemma mean_of_sub_batch_means:
  assumes "0 < N" "0 < k" "N * k = length xs" "length ys = length xs"
  shows "(\<Sum>i\<leftarrow>[0..<N]. batch_mean e (sub_batch k i xs) (sub_batch k i ys)) / real N =
         batch_mean e xs ys"
proof -
  let ?h = "\<lambda>(x, y). e x y"
  have "(\<Sum>i\<leftarrow>[0..<N]. batch_mean e (sub_batch k i xs) (sub_batch k i ys)) =
        (\<Sum>i\<leftarrow>[0..<N]. sum_list (map ?h (sub_batch k i (zip xs ys))) / real k)"
    by (rule arg_cong[where f = sum_list], rule map_cong)
       (simp_all add: batch_mean_def sub_batch_zip length_sub_batch[OF _ assms(3)])
  also have "\<dots> = (\<Sum>i\<leftarrow>[0..<N]. sum_list (map ?h (sub_batch k i (zip xs ys)))) / real k"
    by (rule sum_list_divide_const)
  also have "\<dots> = sum_list (map ?h (zip xs ys)) / real k"
    using assms(3,4) by (simp add: sum_sub_batches)
  finally have "(\<Sum>i\<leftarrow>[0..<N]. batch_mean e (sub_batch k i xs) (sub_batch k i ys)) / real N =
        sum_list (map ?h (zip xs ys)) / real k / real N" by simp
  also have "\<dots> = sum_list (map ?h (zip xs ys)) / real (N * k)"
    by (simp add: mult.commute)
  finally show ?thesis by (simp add: batch_mean_def assms(3))
qed

lemma run_sub_batches_mean:
  "mean_loss_and_grad f p (states_given f p s cs) e d n \<Longrightarrow>
   (\<forall>c\<in>set cs. fst c \<noteq> [] \<and> length (snd c) = length (fst c)) \<Longrightarrow>
         map (\<lambda>r. fst (fst r)) (run_sub_batches f p s cs) =
           map (\<lambda>c. batch_mean e (fst c) (snd c)) cs \<and>
         map snd (run_sub_batches f p s cs) =
           map (\<lambda>c. map (\<lambda>j. batch_mean (\<lambda>x y. d x y ! j) (fst c) (snd c)) [0..<n]) cs"
proof (induction cs arbitrary: s)
  case Nil
  then show ?case by simp
next
  case (Cons c cs)
  have c: "fst c \<noteq> []" "length (snd c) = length (fst c)" using Cons.prems(2) by simp_all
  have here: "mean_loss_and_grad f p [s] e d n"
    and rest: "mean_loss_and_grad f p
                 (states_given f p (snd (fst (f p s (fst c) (snd c)))) cs) e d n"
    using Cons.prems(1) by (simp_all add: mean_loss_and_grad_def)
  have h: "fst (fst (f p s (fst c) (snd c))) = batch_mean e (fst c) (snd c)"
      "snd (f p s (fst c) (snd c)) = map (\<lambda>j. batch_mean (\<lambda>x y. d x y ! j) (fst c) (snd c)) [0..<n]"
    using here c by (simp_all add: mean_loss_and_grad_def)
  have ih: "map (\<lambda>r. fst (fst r)) (run_sub_batches f p (snd (fst (f p s (fst c) (snd c)))) cs) =
           map (\<lambda>c. batch_mean e (fst c) (snd c)) cs \<and>
         map snd (run_sub_batches f p (snd (fst (f p s (fst c) (snd c)))) cs) =
           map (\<lambda>c. map (\<lambda>j. batch_mean (\<lambda>x y. d x y ! j) (fst c) (snd c)) [0..<n]) cs"
    by (rule Cons.IH [OF rest]) (use Cons.prems(2) in simp)
  show ?case using h ih by (simp add: Let_def)
qed

lemma sub_batches_valid:
  assumes "0 < N" "N dvd length images" "images \<noteq> []" "length labels = length images"
  shows "\<forall>c\<in>set (sub_batches N images labels). fst c \<noteq> [] \<and> length (snd c) = length (fst c)"
proof -
  define k where "k = length images div N"
  have kN: "N * k = length images" using assms(2) by (simp add: k_def)
  have k0: "0 < k" using kN assms(3) by (cases k) auto
  have "\<And>i. i < N \<Longrightarrow> length (sub_batch k i images) = k \<and> length (sub_batch k i labels) = k"
    using length_sub_batch[OF _ kN] length_sub_batch[of _ N k labels] kN assms(4) by simp
  then show ?thesis using k0 by (fastforce simp: sub_batches_def k_def[symmetric])
qed

lemma averaged_of_mean:
  assumes N: "0 < N" and dv: "N dvd length images" and ne: "images \<noteq> []"
    and lab: "length labels = length images"
    and m: "mean_loss_and_grad f p (states_given f p s (sub_batches N images labels)) e d n"
  shows "averaged_loss (run_sub_batches f p s (sub_batches N images labels)) N =
           batch_mean e images labels"
    and "averaged_grads (run_sub_batches f p s (sub_batches N images labels)) N n =
           map (\<lambda>j. batch_mean (\<lambda>x y. d x y ! j) images labels) [0..<n]"
proof -
  define k where "k = length images div N"
  have kN: "N * k = length images" using dv by (simp add: k_def)
  have k0: "0 < k" using kN ne by (cases k) auto
  let ?cs = "sub_batches N images labels"
  let ?rs = "run_sub_batches f p s ?cs"
  note v = sub_batches_valid[OF N dv ne lab]
  have l: "map (\<lambda>r. fst (fst r)) ?rs = map (\<lambda>c. batch_mean e (fst c) (snd c)) ?cs"
    and g: "map snd ?rs = map (\<lambda>c. map (\<lambda>j. batch_mean (\<lambda>x y. d x y ! j) (fst c) (snd c)) [0..<n]) ?cs"
    using run_sub_batches_mean[OF m v] by simp_all
  have "(\<Sum>r\<leftarrow>?rs. fst (fst r)) = (\<Sum>i\<leftarrow>[0..<N]. batch_mean e (sub_batch k i images) (sub_batch k i labels))"
    using l by (simp add: sub_batches_def k_def[symmetric] o_def)
  then show "averaged_loss ?rs N = batch_mean e images labels"
    using mean_of_sub_batch_means[OF N k0 kN lab, of e] by (simp add: averaged_loss_def)
  have gj: "(\<Sum>r\<leftarrow>?rs. snd r ! j) / real N = batch_mean (\<lambda>x y. d x y ! j) images labels"
    if j: "j < n" for j
  proof -
    have "(\<Sum>r\<leftarrow>?rs. snd r ! j) = (\<Sum>g\<leftarrow>map snd ?rs. g ! j)"
      by (simp add: o_def)
    also have "\<dots> = (\<Sum>i\<leftarrow>[0..<N]. batch_mean (\<lambda>x y. d x y ! j) (sub_batch k i images) (sub_batch k i labels))"
      unfolding g using j by (simp add: sub_batches_def k_def[symmetric] o_def)
    finally show ?thesis
      using mean_of_sub_batch_means[OF N k0 kN lab, of "\<lambda>x y. d x y ! j"] by simp
  qed
  show "averaged_grads ?rs N n = map (\<lambda>j. batch_mean (\<lambda>x y. d x y ! j) images labels) [0..<n]"
    unfolding averaged_grads_def by (rule map_cong) (simp_all add: gj)
qed

lemma accumulate_pass_through:
  "accumulate_gradient_with_states f p s images labels (Some 1) = Inr (f p s images labels)"
  "accumulate_gradient_with_states f p s images labels None = Inr (f p s images labels)"
  by (simp_all add: accumulate_gradient_with_states_def)

lemma mse_structure: "grads_structure mse_loss_and_grad p (Suc 0)"
  by (simp add: grads_structure_def mse_loss_and_grad_def)

lemma scaled_structure: "grads_structure scaled_loss_and_grad p (Suc 0)"
  by (simp add: grads_structure_def scaled_loss_and_grad_def split: prod.splits)

lemma states_given_initial:
  "0 < N \<Longrightarrow> s \<in> set (states_given f p s (sub_batches N images labels))"
  by (cases N) (simp_all add: sub_batches_def upt_conv_Cons del: upt_Suc)

text \<open>
  C1, as amended. Let the accumulation factor \<open>N > 1\<close> divide the batch size, with as
  many labels as images, and let the gradient have the structure of the parameters
  whatever the state and the batch. Then the loss and the gradient returned are the sums
  of the \<open>N\<close> sub-batch losses and gradients divided by \<open>N\<close>, every sub-batch call
  made with the same parameters and with the state that the call before it returned. If
  moreover the batch is not empty and, at every state handed to a sub-batch call (the
  initial state first), the loss is the batch mean of one per-example loss and the
  gradient the mean of the per-example gradients, then they equal the loss and the
  gradient of the \<open>N = 1\<close> path on the full batch. The loss may thus read the state, if
  not a part of it that the calls change. Arithmetic is exact.
\<close>

theorem accumulation_averages_sub_batches:
  assumes N: "1 < N" and dv: "N dvd length images" and lab: "length labels = length images"
    and gs: "grads_structure f p n"
  shows "loss_and_grads (accumulate_gradient_with_states f p s images labels (Some (int N))) =
           Inr (averaged_loss (run_sub_batches f p s (sub_batches N images labels)) N,
                averaged_grads (run_sub_batches f p s (sub_batches N images labels)) N n) \<and>
         (images \<noteq> [] \<and>
          mean_loss_and_grad f p (states_given f p s (sub_batches N images labels)) e d n \<longrightarrow>
            loss_and_grads (accumulate_gradient_with_states f p s images labels (Some (int N))) =
            loss_and_grads (accumulate_gradient_with_states f p s images labels (Some 1)))"
proof -
  have a: "loss_and_grads (accumulate_gradient_with_states f p s images labels (Some (int N))) =
           Inr (averaged_loss (run_sub_batches f p s (sub_batches N images labels)) N,
                averaged_grads (run_sub_batches f p s (sub_batches N images labels)) N n)"
    by (simp add: accumulate_sub_batches[OF N dv lab gs] loss_and_grads_def)
  have b: "loss_and_grads (accumulate_gradient_with_states f p s images labels (Some (int N))) =
            loss_and_grads (accumulate_gradient_with_states f p s images labels (Some 1))"
    if ne: "images \<noteq> []"
      and m: "mean_loss_and_grad f p (states_given f p s (sub_batches N images labels)) e d n"
  proof -
    have N0: "0 < N" using N by simp
    have full: "fst (fst (f p s images labels)) = batch_mean e images labels"
      "snd (f p s images labels) = map (\<lambda>j. batch_mean (\<lambda>x y. d x y ! j) images labels) [0..<n]"
      using m ne lab states_given_initial[OF N0, of s f p images labels]
      unfolding mean_loss_and_grad_def by blast+
    have "loss_and_grads (accumulate_gradient_with_states f p s images labels (Some 1)) =
          Inr (fst (fst (f p s images labels)), snd (f p s images labels))"
      by (simp add: accumulate_pass_through loss_and_grads_def split: prod.splits)
    then show ?thesis
      using a averaged_of_mean[OF N0 dv ne lab m] full by simp
  qed
  show ?thesis using a b by blast
qed

theorem accumulation_averages_sub_batches_witness:
  "loss_and_grads (accumulate_gradient_with_states scaled_loss_and_grad 1 (3, 0)
      [1, 2, 3, 4] [0, 0, 0, 0] (Some 2)) = Inr (45 / 2, [45]) \<and>
   loss_and_grads (accumulate_gradient_with_states scaled_loss_and_grad 1 (3, 0)
      [1, 2, 3, 4] [0, 0, 0, 0] (Some 2)) =
   loss_and_grads (accumulate_gradient_with_states scaled_loss_and_grad 1 (3, 0)
      [1, 2, 3, 4] [0, 0, 0, 0] (Some 1))"
proof -
  note t = accumulation_averages_sub_batches
      [where N = 2 and images = "[1, 2, 3, 4]" and labels = "[0, 0, 0, 0]"
         and f = scaled_loss_and_grad and p = 1 and n = "Suc 0" and s = "(3, 0)"
         and e = "\<lambda>x y. 3 * sq_err 1 x y" and d = "\<lambda>x y. map ((*) 3) (sq_err_grad 1 x y)",
       OF _ _ _ scaled_structure]
  have mean: "mean_loss_and_grad scaled_loss_and_grad 1
      (states_given scaled_loss_and_grad 1 (3, 0) (sub_batches 2 [1, 2, 3, 4] [0, 0, 0, 0]))
      (\<lambda>x y. 3 * sq_err 1 x y) (\<lambda>x y. map ((*) 3) (sq_err_grad 1 x y)) (Suc 0)"
    by (simp add: mean_loss_and_grad_def sub_batches_def upt_conv_Cons scaled_loss_and_grad_def)
  have averaged: "loss_and_grads (accumulate_gradient_with_states scaled_loss_and_grad 1 (3, 0)
      [1, 2, 3, 4] [0, 0, 0, 0] (Some 2)) = Inr (45 / 2, [45])"
    using t
    by (simp add: averaged_loss_def averaged_grads_def sub_batches_def sub_batch_def
          scaled_loss_and_grad_def batch_mean_def sq_err_def sq_err_grad_def upt_conv_Cons)
  have "loss_and_grads (accumulate_gradient_with_states scaled_loss_and_grad 1 (3, 0)
      [1, 2, 3, 4] [0, 0, 0, 0] (Some (int 2))) =
   loss_and_grads (accumulate_gradient_with_states scaled_loss_and_grad 1 (3, 0)
      [1, 2, 3, 4] [0, 0, 0, 0] (Some 1))"
    by (rule t [THEN conjunct2, THEN mp]) (simp_all add: mean)
  then have full: "loss_and_grads (accumulate_gradient_with_states scaled_loss_and_grad 1 (3, 0)
      [1, 2, 3, 4] [0, 0, 0, 0] (Some 2)) =
   loss_and_grads (accumulate_gradient_with_states scaled_loss_and_grad 1 (3, 0)
      [1, 2, 3, 4] [0, 0, 0, 0] (Some 1))"
    by simp
  show ?thesis using averaged full by (intro conjI)
qed

text \<open>
  The claim without the condition on the loss fails. For a loss that sums over the batch
  the accumulated loss and gradient are half those of the full batch; for a loss that
  reads the state, which the accumulator updates between sub-batches, the second
  sub-batch is charged the updated state.
\<close>

theorem accumulation_not_full_batch_counterexample:
  "loss_and_grads (accumulate_gradient_with_states sse_loss_and_grad 1 0 [1, 2] [0, 0] (Some 2)) =
     Inr (5 / 2, [5]) \<and>
   loss_and_grads (accumulate_gradient_with_states sse_loss_and_grad 1 0 [1, 2] [0, 0] (Some 1)) =
     Inr (5, [10]) \<and>
   loss_and_grads (accumulate_gradient_with_states sse_loss_and_grad 1 0 [1, 2] [0, 0] (Some 2)) \<noteq>
   loss_and_grads (accumulate_gradient_with_states sse_loss_and_grad 1 0 [1, 2] [0, 0] (Some 1)) \<and>
   loss_and_grads (accumulate_gradient_with_states stateful_loss_and_grad 1 0 [1, 2] [0, 0] (Some 2)) =
     Inr (3, [5]) \<and>
   loss_and_grads (accumulate_gradient_with_states stateful_loss_and_grad 1 0 [1, 2] [0, 0] (Some 1)) =
     Inr (5 / 2, [5]) \<and>
   loss_and_grads (accumulate_gradient_with_states stateful_loss_and_grad 1 0 [1, 2] [0, 0] (Some 2)) \<noteq>
   loss_and_grads (accumulate_gradient_with_states stateful_loss_and_grad 1 0 [1, 2] [0, 0] (Some 1))"
  by (simp add: accumulate_gradient_with_states_def fori_loop.simps acc_grad_and_loss_def
        dynamic_slice_def tree_add_def loss_and_grads_def sse_loss_and_grad_def
        stateful_loss_and_grad_def batch_mean_def sq_err_def sq_err_grad_def)

text \<open>
  C8. With an accumulation factor \<open>N > 1\<close> (dividing the batch size, with as many labels
  as images and gradients of the parameters' structure) the auxiliary state returned is
  the state threaded through the sub-batches in order: each call receives the state that
  the call before it returned, and the last call's state is returned as it is, not
  divided by \<open>N\<close>.
\<close>

theorem state_is_threaded_not_averaged:
  assumes "1 < N" and "N dvd length images" and "length labels = length images"
    and "grads_structure f p n"
  shows "state_of (accumulate_gradient_with_states f p s images labels (Some (int N))) =
           Inr (thread_states f p s (sub_batches N images labels))"
  by (simp add: accumulate_sub_batches [OF assms] state_of_def)

theorem state_is_threaded_not_averaged_witness:
  "state_of (accumulate_gradient_with_states mse_loss_and_grad 1 0
      [1, 2, 3, 4] [0, 0, 0, 0] (Some 2)) = Inr 2"
  using state_is_threaded_not_averaged
      [where N = 2 and images = "[1, 2, 3, 4]" and labels = "[0, 0, 0, 0]"
         and f = mse_loss_and_grad and p = 1 and n = "Suc 0" and s = 0,
       OF _ _ _ mse_structure]
  by (simp add: thread_states_def sub_batches_def mse_loss_and_grad_def upt_conv_Cons)

subsection \<open>Evaluation\<close>

text \<open>
  On well-shaped batches the collective sums followed by the host-side sums are the sums
  over all entries of all devices.
\<close>

lemma sum_list_map2_add:
  "length v = length w \<Longrightarrow> sum_list (map2 (+) v w) = sum_list v + (sum_list w :: real)"
  by (induction v w rule: list_induct2) simp_all

lemma foldl_map2_add:
  "\<forall>w\<in>set rest. length w = length v \<Longrightarrow>
   length (foldl (map2 (+)) v rest) = length v \<and>
   sum_list (foldl (map2 (+)) v rest) = sum_list v + (\<Sum>w\<leftarrow>rest. sum_list (w :: real list))"
proof (induction rest arbitrary: v)
  case Nil
  then show ?case by simp
next
  case (Cons w rest)
  have lw: "length w = length v" using Cons.prems by simp
  have "\<forall>u\<in>set rest. length u = length (map2 (+) v w)" using Cons.prems lw by simp
  from Cons.IH[OF this] show ?case using lw by (simp add: sum_list_map2_add)
qed

lemma sum_list_psum:
  "\<forall>v\<in>set vs. length v = b \<Longrightarrow> sum_list (psum vs) = (\<Sum>v\<leftarrow>vs. sum_list v)"
proof (cases vs)
  case Nil
  then show ?thesis by (simp add: psum_def)
next
  case (Cons v rest)
  assume a: "\<forall>v\<in>set vs. length v = b"
  then have "\<forall>w\<in>set rest. length w = length v" using Cons by simp
  from foldl_map2_add[OF this] show ?thesis using Cons by (simp add: psum_def)
qed

lemma map2_nth:
  "length xs = b \<Longrightarrow> length ys = b \<Longrightarrow> map2 f xs ys = map (\<lambda>j. f (xs ! j) (ys ! j)) [0..<b]"
  by (rule nth_equalityI) simp_all

lemma masked_stats_shaped:
  assumes "shaped_shard apply_fn loss_fn b sh"
  shows "length (fst (masked_stats apply_fn loss_fn sh)) = b"
    and "length (fst (snd (masked_stats apply_fn loss_fn sh))) = b"
    and "length (snd (snd (masked_stats apply_fn loss_fn sh))) = b"
    and "sum_list (fst (masked_stats apply_fn loss_fn sh)) = shard_correct apply_fn sh"
    and "sum_list (fst (snd (masked_stats apply_fn loss_fn sh))) = shard_loss apply_fn loss_fn sh"
    and "sum_list (snd (snd (masked_stats apply_fn loss_fn sh))) = shard_count sh"
proof -
  obtain images labels msk where sh: "sh = (images, labels, msk)" by (cases sh) auto
  have l: "length images = b" "length labels = b" "length msk = b"
    "length (apply_fn images) = b" "length (loss_fn (apply_fn images) labels) = b"
    using assms by (simp_all add: shaped_shard_def sh)
  have m: "map2 (*) msk (map list_max labels) =
           map (\<lambda>j. entry_mask (msk ! j) (labels ! j)) [0..<b]"
    using l by (simp add: map2_nth[of msk b "map list_max labels"] entry_mask_def)
  have t: "map2 (\<lambda>row i. row ! i) labels (map argmax (apply_fn images)) =
           map (\<lambda>j. (labels ! j) ! argmax (apply_fn images ! j)) [0..<b]"
    using l by (simp add: map2_nth[of labels b "map argmax (apply_fn images)"])
  have c: "map2 (*) (map (\<lambda>j. (labels ! j) ! argmax (apply_fn images ! j)) [0..<b])
             (map (\<lambda>j. entry_mask (msk ! j) (labels ! j)) [0..<b]) =
           map (\<lambda>j. (labels ! j) ! argmax (apply_fn images ! j) * entry_mask (msk ! j) (labels ! j)) [0..<b]"
    by (rule nth_equalityI) simp_all
  have lo: "map2 (*) (loss_fn (apply_fn images) labels)
             (map (\<lambda>j. entry_mask (msk ! j) (labels ! j)) [0..<b]) =
           map (\<lambda>j. loss_fn (apply_fn images) labels ! j * entry_mask (msk ! j) (labels ! j)) [0..<b]"
    using l by (intro nth_equalityI) simp_all
  have ms: "masked_stats apply_fn loss_fn (images, labels, msk) =
      (map (\<lambda>j. (labels ! j) ! argmax (apply_fn images ! j) * entry_mask (msk ! j) (labels ! j)) [0..<b],
       map (\<lambda>j. loss_fn (apply_fn images) labels ! j * entry_mask (msk ! j) (labels ! j)) [0..<b],
       map (\<lambda>j. entry_mask (msk ! j) (labels ! j)) [0..<b])"
    unfolding masked_stats_def by (simp add: Let_def m t c lo)
  show "length (fst (masked_stats apply_fn loss_fn sh)) = b"
    and "length (fst (snd (masked_stats apply_fn loss_fn sh))) = b"
    and "length (snd (snd (masked_stats apply_fn loss_fn sh))) = b"
    by (simp_all add: sh ms)
  show "sum_list (fst (masked_stats apply_fn loss_fn sh)) = shard_correct apply_fn sh"
    and "sum_list (fst (snd (masked_stats apply_fn loss_fn sh))) = shard_loss apply_fn loss_fn sh"
    and "sum_list (snd (snd (masked_stats apply_fn loss_fn sh))) = shard_count sh"
    using l by (simp_all add: sh ms shard_correct_def shard_loss_def shard_count_def)
qed

lemma evaluation_fn_sums:
  assumes "shaped_batch apply_fn loss_fn b batch"
  shows "sum_list (hd (fst (evaluation_fn apply_fn loss_fn batch))) =
           (\<Sum>sh\<leftarrow>batch. shard_correct apply_fn sh)"
    and "sum_list (hd (fst (snd (evaluation_fn apply_fn loss_fn batch)))) =
           (\<Sum>sh\<leftarrow>batch. shard_loss apply_fn loss_fn sh)"
    and "sum_list (hd (snd (snd (evaluation_fn apply_fn loss_fn batch)))) =
           (\<Sum>sh\<leftarrow>batch. shard_count sh)"
proof -
  have ne: "batch \<noteq> []" and sh: "\<And>s. s \<in> set batch \<Longrightarrow> shaped_shard apply_fn loss_fn b s"
    using assms by (simp_all add: shaped_batch_def list_all_iff)
  have hd: "\<And>x :: real list. hd (replicate (length batch) x) = x"
    using ne by (cases batch) simp_all
  let ?per = "map (masked_stats apply_fn loss_fn) batch"
  have 1: "\<forall>v\<in>set (map fst ?per). length v = b"
    using sh masked_stats_shaped(1) by fastforce
  have 2: "\<forall>v\<in>set (map (\<lambda>r. fst (snd r)) ?per). length v = b"
    using sh masked_stats_shaped(2) by fastforce
  have 3: "\<forall>v\<in>set (map (\<lambda>r. snd (snd r)) ?per). length v = b"
    using sh masked_stats_shaped(3) by fastforce
  have s1: "(\<Sum>v\<leftarrow>map fst ?per. sum_list v) = (\<Sum>sh\<leftarrow>batch. shard_correct apply_fn sh)"
    unfolding map_map o_def
    by (rule arg_cong[where f = sum_list], rule map_cong, rule refl,
        rule masked_stats_shaped(4), erule sh)
  have s2: "(\<Sum>v\<leftarrow>map (\<lambda>r. fst (snd r)) ?per. sum_list v) =
            (\<Sum>sh\<leftarrow>batch. shard_loss apply_fn loss_fn sh)"
    unfolding map_map o_def
    by (rule arg_cong[where f = sum_list], rule map_cong, rule refl,
        rule masked_stats_shaped(5), erule sh)
  have s3: "(\<Sum>v\<leftarrow>map (\<lambda>r. snd (snd r)) ?per. sum_list v) = (\<Sum>sh\<leftarrow>batch. shard_count sh)"
    unfolding map_map o_def
    by (rule arg_cong[where f = sum_list], rule map_cong, rule refl,
        rule masked_stats_shaped(6), erule sh)
  have ev: "evaluation_fn apply_fn loss_fn batch =
      (replicate (length batch) (psum (map fst ?per)),
       replicate (length batch) (psum (map (\<lambda>r. fst (snd r)) ?per)),
       replicate (length batch) (psum (map (\<lambda>r. snd (snd r)) ?per)))"
    by (simp add: evaluation_fn_def Let_def)
  show "sum_list (hd (fst (evaluation_fn apply_fn loss_fn batch))) =
           (\<Sum>sh\<leftarrow>batch. shard_correct apply_fn sh)"
    unfolding ev fst_conv snd_conv hd sum_list_psum[OF 1] by (rule s1)
  show "sum_list (hd (fst (snd (evaluation_fn apply_fn loss_fn batch)))) =
           (\<Sum>sh\<leftarrow>batch. shard_loss apply_fn loss_fn sh)"
    unfolding ev fst_conv snd_conv hd sum_list_psum[OF 2] by (rule s2)
  show "sum_list (hd (snd (snd (evaluation_fn apply_fn loss_fn batch)))) =
           (\<Sum>sh\<leftarrow>batch. shard_count sh)"
    unfolding ev fst_conv snd_conv hd sum_list_psum[OF 3] by (rule s3)
qed

text \<open>The accumulators of the validation loop hold the totals over the batches.\<close>

lemma accumulate_batch_shaped:
  assumes "shaped_batch apply_fn loss_fn b batch"
  shows "accumulate_batch apply_fn loss_fn (ncorrect, loss, nseen) batch =
           (py_iadd ncorrect (\<Sum>sh\<leftarrow>batch. shard_correct apply_fn sh),
            py_iadd loss (\<Sum>sh\<leftarrow>batch. shard_loss apply_fn loss_fn sh),
            py_iadd nseen (\<Sum>sh\<leftarrow>batch. shard_count sh))"
proof -
  obtain bc bl bn where e: "evaluation_fn apply_fn loss_fn batch = (bc, bl, bn)"
    by (cases "evaluation_fn apply_fn loss_fn batch") auto
  show ?thesis
    using evaluation_fn_sums[OF assms] by (simp add: accumulate_batch_def e)
qed

lemma foldl_accumulate_batch_floats:
  "list_all (shaped_batch apply_fn loss_fn b) batches \<Longrightarrow>
   foldl (accumulate_batch apply_fn loss_fn) (NpFloat x, NpFloat y, NpFloat z) batches =
     (NpFloat (x + total_over (shard_correct apply_fn) batches),
      NpFloat (y + total_over (shard_loss apply_fn loss_fn) batches),
      NpFloat (z + total_over shard_count batches))"
proof (induction batches arbitrary: x y z)
  case Nil
  then show ?case by (simp add: total_over_def)
next
  case (Cons batch batches)
  then have sb: "shaped_batch apply_fn loss_fn b batch"
    and rest: "list_all (shaped_batch apply_fn loss_fn b) batches" by simp_all
  show ?case
    by (simp add: accumulate_batch_shaped[OF sb] py_iadd_def Cons.IH[OF rest] total_over_def
          add.assoc)
qed

lemma foldl_accumulate_batch_totals:
  assumes "batches \<noteq> []" and "list_all (shaped_batch apply_fn loss_fn b) batches"
  shows "foldl (accumulate_batch apply_fn loss_fn) (PyInt 0, PyInt 0, PyInt 0) batches =
     (NpFloat (total_over (shard_correct apply_fn) batches),
      NpFloat (total_over (shard_loss apply_fn loss_fn) batches),
      NpFloat (total_over shard_count batches))"
proof (cases batches)
  case Nil
  then show ?thesis using assms(1) by simp
next
  case (Cons batch rest)
  then have sb: "shaped_batch apply_fn loss_fn b batch"
    and r: "list_all (shaped_batch apply_fn loss_fn b) rest" using assms(2) by simp_all
  show ?thesis
    unfolding Cons
    by (simp add: accumulate_batch_shaped[OF sb] py_iadd_def foldl_accumulate_batch_floats[OF r]
          total_over_def)
qed

lemma fold_max_zero: "\<forall>x\<in>set xs. x = 0 \<Longrightarrow> fold max xs (0::real) = 0"
  by (induction xs) simp_all

lemma list_max_zero: "row \<noteq> [] \<Longrightarrow> \<forall>x\<in>set row. x = 0 \<Longrightarrow> list_max row = 0"
  by (cases row) (simp_all add: list_max_def fold_max_zero)

lemma masked_stats_mask_nth:
  assumes "shaped_shard apply_fn loss_fn b sh" and "j < b"
  shows "snd (snd (masked_stats apply_fn loss_fn sh)) ! j =
           entry_mask (snd (snd sh) ! j) (fst (snd sh) ! j)"
proof -
  obtain images labels msk where sh: "sh = (images, labels, msk)" by (cases sh) auto
  have l: "length labels = b" "length msk = b"
    using assms(1) by (simp_all add: shaped_shard_def sh)
  show ?thesis using l assms(2) by (simp add: sh masked_stats_def Let_def entry_mask_def)
qed

lemma np_divide_zero: "np_divide a 0 \<in> {NaN, PosInf, NegInf}"
  by (simp add: np_divide_def)

lemma example_batch_shaped: "shaped_batch example_apply_fn example_loss_fn 5 example_batch"
  by (simp add: shaped_batch_def shaped_shard_def example_batch_def example_apply_fn_def
        example_loss_fn_def)

lemma masked_out_batch_shaped:
  "shaped_batch example_apply_fn example_loss_fn 2 masked_out_batch"
  by (simp add: shaped_batch_def shaped_shard_def masked_out_batch_def example_apply_fn_def
        example_loss_fn_def)

lemma upt_5: "[0..<5] = [0, 1, 2, 3, 4]"
  by (simp add: upt_conv_Cons)

lemma upt_2: "[0..<2] = [0, 1]"
  by (simp add: upt_conv_Cons)

lemma example_batch_totals:
  "total_over shard_count [example_batch] = 8"
  "total_over (shard_correct example_apply_fn) [example_batch] = 6"
  "total_over (shard_loss example_apply_fn example_loss_fn) [example_batch] = 4"
  by (simp_all add: total_over_def shard_count_def shard_correct_def shard_loss_def
        example_batch_def example_apply_fn_def example_loss_fn_def entry_mask_def list_max_def
        argmax_def upt_5)

lemma masked_out_batch_totals:
  "total_over shard_count [masked_out_batch] = 0"
  by (simp add: total_over_def shard_count_def masked_out_batch_def entry_mask_def list_max_def
        upt_2)

text \<open>
  C4, as amended. The validation loop divides by the accumulated count without a guard.
  When no batch is evaluated (an empty split: zero validation steps) the accumulators are
  still the Python integer \<open>0\<close> and the division raises \<open>ZeroDivisionError\<close>. When at
  least one batch is evaluated the accumulators are numpy floats and the loop always
  returns: the two quotients, which for a zero masked count (every entry masked out) are
  \<open>nan\<close> or an infinity rather than numbers.
\<close>

theorem validation_division_unguarded:
  "(take val_steps val_iter = [] \<longrightarrow>
      evaluate_split apply_fn loss_fn val_steps val_iter = Inl ZeroDivisionError) \<and>
   (take val_steps val_iter \<noteq> [] \<and>
    list_all (shaped_batch apply_fn loss_fn b) (take val_steps val_iter) \<longrightarrow>
      (\<exists>prec val_loss.
         evaluate_split apply_fn loss_fn val_steps val_iter = Inr (prec, val_loss) \<and>
         (total_over shard_count (take val_steps val_iter) = 0 \<longrightarrow>
            prec \<in> {NaN, PosInf, NegInf} \<and> val_loss \<in> {NaN, PosInf, NegInf})))"
proof (intro conjI impI)
  assume none: "take val_steps val_iter = []"
  show "evaluate_split apply_fn loss_fn val_steps val_iter = Inl ZeroDivisionError"
    unfolding evaluate_split_def none by (simp add: py_truediv_def)
next
  let ?bs = "take val_steps val_iter"
  assume a: "?bs \<noteq> [] \<and> list_all (shaped_batch apply_fn loss_fn b) ?bs"
  then have r: "evaluate_split apply_fn loss_fn val_steps val_iter =
      Inr (np_divide (total_over (shard_correct apply_fn) ?bs) (total_over shard_count ?bs),
           np_divide (total_over (shard_loss apply_fn loss_fn) ?bs) (total_over shard_count ?bs))"
    using foldl_accumulate_batch_totals[of ?bs apply_fn loss_fn b]
    by (simp add: evaluate_split_def py_truediv_def)
  have "total_over shard_count ?bs = 0 \<longrightarrow>
      np_divide (total_over (shard_correct apply_fn) ?bs) (total_over shard_count ?bs)
        \<in> {NaN, PosInf, NegInf} \<and>
      np_divide (total_over (shard_loss apply_fn loss_fn) ?bs) (total_over shard_count ?bs)
        \<in> {NaN, PosInf, NegInf}"
    using np_divide_zero by simp
  then show "\<exists>prec val_loss.
         evaluate_split apply_fn loss_fn val_steps val_iter = Inr (prec, val_loss) \<and>
         (total_over shard_count ?bs = 0 \<longrightarrow>
            prec \<in> {NaN, PosInf, NegInf} \<and> val_loss \<in> {NaN, PosInf, NegInf})"
    using r by blast
qed

theorem validation_division_unguarded_witness:
  "evaluate_split example_apply_fn example_loss_fn 0 [example_batch] = Inl ZeroDivisionError \<and>
   (\<exists>prec val_loss.
      evaluate_split example_apply_fn example_loss_fn 1 [example_batch] = Inr (prec, val_loss)) \<and>
   (\<exists>prec val_loss.
      evaluate_split example_apply_fn example_loss_fn 1 [masked_out_batch] = Inr (prec, val_loss) \<and>
      prec \<in> {NaN, PosInf, NegInf} \<and> val_loss \<in> {NaN, PosInf, NegInf})"
proof -
  have none: "evaluate_split example_apply_fn example_loss_fn 0 [example_batch] =
      Inl ZeroDivisionError"
    using validation_division_unguarded
      [where val_steps = 0 and val_iter = "[example_batch]" and apply_fn = example_apply_fn
         and loss_fn = example_loss_fn]
    by simp
  have some: "\<exists>prec val_loss.
      evaluate_split example_apply_fn example_loss_fn 1 [example_batch] = Inr (prec, val_loss)"
    using validation_division_unguarded
      [where val_steps = 1 and val_iter = "[example_batch]" and apply_fn = example_apply_fn
         and loss_fn = example_loss_fn and b = 5]
      example_batch_shaped
    by auto
  have masked: "\<exists>prec val_loss.
      evaluate_split example_apply_fn example_loss_fn 1 [masked_out_batch] = Inr (prec, val_loss) \<and>
      prec \<in> {NaN, PosInf, NegInf} \<and> val_loss \<in> {NaN, PosInf, NegInf}"
    using validation_division_unguarded
      [where val_steps = 1 and val_iter = "[masked_out_batch]" and apply_fn = example_apply_fn
         and loss_fn = example_loss_fn and b = 2]
      masked_out_batch_shaped masked_out_batch_totals
    by auto
  show ?thesis using none some masked by (intro conjI)
qed

text \<open>
  The claim that the division is guarded fails: with no examples there are no validation
  steps and the loop raises; with one batch whose entries are all masked out the loop
  divides zero by zero and reports \<open>nan\<close> for both metrics.
\<close>

theorem validation_division_by_zero_counterexample:
  "get_val_steps 0 8 = Inr 0 \<and>
   evaluate_split example_apply_fn example_loss_fn 0 [example_batch] = Inl ZeroDivisionError \<and>
   evaluate_split example_apply_fn example_loss_fn 1 [masked_out_batch] = Inr (NaN, NaN)"
  by (simp add: get_val_steps_def evaluate_split_def accumulate_batch_def evaluation_fn_def
        masked_stats_def psum_def py_iadd_def py_truediv_def np_divide_def masked_out_batch_def
        example_apply_fn_def example_loss_fn_def list_max_def argmax_def Let_def)

text \<open>
  C6. For well-shaped evaluation batches, at least one of them: the mask of an entry
  whose labels are all zero is zero after the label rule; for every batch the three
  arrays returned by \<open>evaluation_fn\<close>, summed on the host, are the sums over all
  replicas and entries of the masked correct predictions, the masked losses and the
  mask; the loop returns the total of correct predictions over the total count and the
  total loss over the total count, which are the plain quotients when the count is not
  zero; in particular 6 correct among 8 valid entries give the accuracy \<open>3/4\<close>.
\<close>

theorem validation_metrics:
  assumes ne: "take val_steps val_iter \<noteq> []"
    and shaped: "list_all (shaped_batch apply_fn loss_fn b) (take val_steps val_iter)"
  shows
   "(\<forall>batch\<in>set (take val_steps val_iter). \<forall>sh\<in>set batch. \<forall>j<b.
        fst (snd sh) ! j \<noteq> [] \<and> (\<forall>x\<in>set (fst (snd sh) ! j). x = 0) \<longrightarrow>
          snd (snd (masked_stats apply_fn loss_fn sh)) ! j = 0) \<and>
    (\<forall>batch\<in>set (take val_steps val_iter).
        sum_list (hd (fst (evaluation_fn apply_fn loss_fn batch))) =
          (\<Sum>sh\<leftarrow>batch. shard_correct apply_fn sh) \<and>
        sum_list (hd (fst (snd (evaluation_fn apply_fn loss_fn batch)))) =
          (\<Sum>sh\<leftarrow>batch. shard_loss apply_fn loss_fn sh) \<and>
        sum_list (hd (snd (snd (evaluation_fn apply_fn loss_fn batch)))) =
          (\<Sum>sh\<leftarrow>batch. shard_count sh)) \<and>
    evaluate_split apply_fn loss_fn val_steps val_iter =
      Inr (np_divide (total_over (shard_correct apply_fn) (take val_steps val_iter))
             (total_over shard_count (take val_steps val_iter)),
           np_divide (total_over (shard_loss apply_fn loss_fn) (take val_steps val_iter))
             (total_over shard_count (take val_steps val_iter))) \<and>
    (total_over shard_count (take val_steps val_iter) \<noteq> 0 \<longrightarrow>
       evaluate_split apply_fn loss_fn val_steps val_iter =
         Inr (Value (total_over (shard_correct apply_fn) (take val_steps val_iter) /
                     total_over shard_count (take val_steps val_iter)),
              Value (total_over (shard_loss apply_fn loss_fn) (take val_steps val_iter) /
                     total_over shard_count (take val_steps val_iter)))) \<and>
    (total_over (shard_correct apply_fn) (take val_steps val_iter) = 6 \<and>
     total_over shard_count (take val_steps val_iter) = 8 \<longrightarrow>
       (\<exists>val_loss. evaluate_split apply_fn loss_fn val_steps val_iter =
          Inr (Value (3 / 4), val_loss)))"
proof -
  let ?bs = "take val_steps val_iter"
  have sb: "shaped_batch apply_fn loss_fn b batch" if "batch \<in> set ?bs" for batch
    using shaped that by (simp add: list_all_iff)
  have ss: "shaped_shard apply_fn loss_fn b sh" if "batch \<in> set ?bs" "sh \<in> set batch" for batch sh
    using sb[OF that(1)] that(2) by (simp add: shaped_batch_def list_all_iff)
  have mask: "\<forall>batch\<in>set ?bs. \<forall>sh\<in>set batch. \<forall>j<b.
        fst (snd sh) ! j \<noteq> [] \<and> (\<forall>x\<in>set (fst (snd sh) ! j). x = 0) \<longrightarrow>
          snd (snd (masked_stats apply_fn loss_fn sh)) ! j = 0"
  proof (intro ballI allI impI)
    fix batch sh j
    assume m: "batch \<in> set ?bs" "sh \<in> set batch" "j < b"
      and z: "fst (snd sh) ! j \<noteq> [] \<and> (\<forall>x\<in>set (fst (snd sh) ! j). x = 0)"
    show "snd (snd (masked_stats apply_fn loss_fn sh)) ! j = 0"
      using masked_stats_mask_nth[OF ss[OF m(1,2)] m(3)] z
      by (simp add: entry_mask_def list_max_zero)
  qed
  have sums: "\<forall>batch\<in>set ?bs.
        sum_list (hd (fst (evaluation_fn apply_fn loss_fn batch))) =
          (\<Sum>sh\<leftarrow>batch. shard_correct apply_fn sh) \<and>
        sum_list (hd (fst (snd (evaluation_fn apply_fn loss_fn batch)))) =
          (\<Sum>sh\<leftarrow>batch. shard_loss apply_fn loss_fn sh) \<and>
        sum_list (hd (snd (snd (evaluation_fn apply_fn loss_fn batch)))) =
          (\<Sum>sh\<leftarrow>batch. shard_count sh)"
    using sb evaluation_fn_sums by blast
  have res: "evaluate_split apply_fn loss_fn val_steps val_iter =
      Inr (np_divide (total_over (shard_correct apply_fn) ?bs) (total_over shard_count ?bs),
           np_divide (total_over (shard_loss apply_fn loss_fn) ?bs) (total_over shard_count ?bs))"
    by (simp add: evaluate_split_def foldl_accumulate_batch_totals[OF ne shaped] py_truediv_def)
  have quot: "total_over shard_count ?bs \<noteq> 0 \<longrightarrow>
       evaluate_split apply_fn loss_fn val_steps val_iter =
         Inr (Value (total_over (shard_correct apply_fn) ?bs / total_over shard_count ?bs),
              Value (total_over (shard_loss apply_fn loss_fn) ?bs / total_over shard_count ?bs))"
    by (simp add: res np_divide_def)
  have ex: "total_over (shard_correct apply_fn) ?bs = 6 \<and> total_over shard_count ?bs = 8 \<longrightarrow>
       (\<exists>val_loss. evaluate_split apply_fn loss_fn val_steps val_iter =
          Inr (Value (3 / 4), val_loss))"
    by (simp add: res np_divide_def)
  show ?thesis using mask sums res quot ex by (intro conjI)
qed

theorem validation_metrics_witness:
  "evaluate_split example_apply_fn example_loss_fn 1 [example_batch] =
     Inr (Value (3 / 4), Value (1 / 2)) \<and>
   snd (snd (masked_stats example_apply_fn example_loss_fn (example_batch ! 1))) ! 3 = 0"
proof -
  have ne: "take 1 [example_batch] \<noteq> []" by simp
  have shaped: "list_all (shaped_batch example_apply_fn example_loss_fn 5) (take 1 [example_batch])"
    by (simp add: example_batch_shaped)
  note t = validation_metrics [OF ne shaped]
  have metrics: "evaluate_split example_apply_fn example_loss_fn 1 [example_batch] =
     Inr (Value (3 / 4), Value (1 / 2))"
    using t [THEN conjunct2, THEN conjunct2, THEN conjunct2, THEN conjunct1]
    by (simp add: example_batch_totals)
  have zeroed: "snd (snd (masked_stats example_apply_fn example_loss_fn (example_batch ! 1))) ! 3 = 0"
    using t [THEN conjunct1]
    by (simp add: example_batch_def)
  show ?thesis using metrics zeroed by (intro conjI)
qed

subsection \<open>Weight decay\<close>

lemma find_first_match:
  assumes "k < length rules" and "re_match (fst (rules ! k)) name"
    and "\<forall>k'<k. \<not> re_match (fst (rules ! k')) name"
  shows "find (\<lambda>(pattern, arg). re_match pattern name) rules = Some (rules ! k)"
proof -
  have "\<exists>i<length rules. (case rules ! i of (pattern, arg) \<Rightarrow> re_match pattern name) \<and>
          rules ! k = rules ! i \<and>
          (\<forall>j<i. \<not> (case rules ! j of (pattern, arg) \<Rightarrow> re_match pattern name))"
    using assms by (intro exI[of _ k]) (simp add: case_prod_beta)
  then show ?thesis by (simp add: find_Some_iff)
qed

lemma find_no_match:
  "\<not> (\<exists>rule\<in>set rules. re_match (fst rule) name) \<Longrightarrow>
   find (\<lambda>(pattern, arg). re_match pattern name) rules = None"
  by (auto simp: find_None_iff)

text \<open>
  C5. With a configured list of rules, the decay step keeps the names and the order of
  the parameters, leaves a parameter unchanged when no rule's pattern matches its
  name, and scales a parameter whose name a rule matches by
  \<open>1 - effective_rate * wd\<close>, with \<open>wd\<close> the coefficient of the first rule of the list
  that matches. The effective rate is \<open>lr / base_lr\<close> when \<open>weight_decay_decouple\<close> is
  set (the base rate not being zero) and \<open>lr\<close> otherwise. When \<open>weight_decay\<close> is a
  non-zero number, the parameters scaled, with that number, are those that match
  \<open>.*kernel.*\<close>, so that a bias is left unchanged. With no \<open>weight_decay\<close>, or the
  number zero, nothing is changed.
\<close>

theorem weight_decay_by_pattern:
  assumes "weight_decay_decouple cfg \<longrightarrow> lr_base cfg \<noteq> 0"
  shows
   "(\<forall>rules. weight_decay cfg = WdRules rules \<longrightarrow>
       map fst (apply_weight_decay re_match cfg lr opt_target) = map fst opt_target \<and>
       (\<forall>i<length opt_target.
          (\<not> (\<exists>rule\<in>set rules. re_match (fst rule) (fst (opt_target ! i))) \<longrightarrow>
             apply_weight_decay re_match cfg lr opt_target ! i = opt_target ! i) \<and>
          (\<forall>k<length rules.
             re_match (fst (rules ! k)) (fst (opt_target ! i)) \<and>
             (\<forall>k'<k. \<not> re_match (fst (rules ! k')) (fst (opt_target ! i))) \<longrightarrow>
             apply_weight_decay re_match cfg lr opt_target ! i =
               (fst (opt_target ! i),
                map (\<lambda>x. (1 - (if weight_decay_decouple cfg then lr / lr_base cfg else lr) *
                                snd (rules ! k)) * x)
                  (snd (opt_target ! i)))))) \<and>
    (\<forall>w. weight_decay cfg = WdNumber w \<and> w \<noteq> 0 \<longrightarrow>
       apply_weight_decay re_match cfg lr opt_target =
         map (\<lambda>(name, v).
                if re_match ''.*kernel.*'' name
                then (name, map (\<lambda>x. (1 - (if weight_decay_decouple cfg then lr / lr_base cfg
                                             else lr) * w) * x) v)
                else (name, v)) opt_target) \<and>
    (weight_decay cfg = WdUnset \<or> weight_decay cfg = WdNumber 0 \<longrightarrow>
       apply_weight_decay re_match cfg lr opt_target = opt_target)"
proof (intro conjI allI impI)
  fix rules
  assume "weight_decay cfg = WdRules rules"
  then show "map fst (apply_weight_decay re_match cfg lr opt_target) = map fst opt_target"
    by (auto simp: apply_weight_decay_def tree_map_with_regex_def split: option.splits)
next
  fix rules i
  assume r: "weight_decay cfg = WdRules rules" and i: "i < length opt_target"
    and "\<not> (\<exists>rule\<in>set rules. re_match (fst rule) (fst (opt_target ! i)))"
  then have "find (\<lambda>(pattern, arg). re_match pattern (fst (opt_target ! i))) rules = None"
    by (rule_tac find_no_match)
  then show "apply_weight_decay re_match cfg lr opt_target ! i = opt_target ! i"
    using i r
    by (cases "opt_target ! i")
       (simp add: apply_weight_decay_def tree_map_with_regex_def decay_rules_def)
next
  fix rules i k
  assume r: "weight_decay cfg = WdRules rules" and i: "i < length opt_target"
    and k: "k < length rules"
    and m: "re_match (fst (rules ! k)) (fst (opt_target ! i)) \<and>
             (\<forall>k'<k. \<not> re_match (fst (rules ! k')) (fst (opt_target ! i)))"
  obtain name v where o: "opt_target ! i = (name, v)" by (cases "opt_target ! i") auto
  obtain pat wd where rk: "rules ! k = (pat, wd)" by (cases "rules ! k") auto
  have "find (\<lambda>(pattern, arg). re_match pattern (fst (opt_target ! i))) rules = Some (rules ! k)"
    by (rule find_first_match[OF k]) (use m in simp_all)
  then have f: "find (\<lambda>(pattern, arg). re_match pattern name) rules = Some (pat, wd)"
    by (simp add: o rk)
  have "apply_weight_decay re_match cfg lr opt_target ! i =
          (name, decay_fn (sched_m cfg lr) v wd)"
    using i by (simp add: apply_weight_decay_def tree_map_with_regex_def decay_rules_def r o f)
  then show "apply_weight_decay re_match cfg lr opt_target ! i =
               (fst (opt_target ! i),
                map (\<lambda>x. (1 - (if weight_decay_decouple cfg then lr / lr_base cfg else lr) *
                                snd (rules ! k)) * x)
                  (snd (opt_target ! i)))"
    by (simp add: o rk decay_fn_def sched_m_def)
next
  fix w
  assume "weight_decay cfg = WdNumber w \<and> w \<noteq> 0"
  then show "apply_weight_decay re_match cfg lr opt_target =
         map (\<lambda>(name, v).
                if re_match ''.*kernel.*'' name
                then (name, map (\<lambda>x. (1 - (if weight_decay_decouple cfg then lr / lr_base cfg
                                             else lr) * w) * x) v)
                else (name, v)) opt_target"
    by (auto simp: apply_weight_decay_def tree_map_with_regex_def decay_rules_def decay_fn_def
          sched_m_def)
next
  assume "weight_decay cfg = WdUnset \<or> weight_decay cfg = WdNumber 0"
  then have "decay_rules cfg = []" by (auto simp: decay_rules_def)
  then show "apply_weight_decay re_match cfg lr opt_target = opt_target"
    by (simp add: apply_weight_decay_def tree_map_with_regex_def case_prod_beta)
qed


theorem weight_decay_by_pattern_witness:
  "apply_weight_decay wildcard_match
     (example_config\<lparr>weight_decay := WdRules [(''.*bias.*'', 1 / 5), (''.*Dense.*'', 1 / 10)]\<rparr>)
     (1 / 2000)
     [(''Dense_0/kernel'', [2, 4]), (''Dense_0/bias'', [1]), (''pos_embedding'', [3])] ! 0 =
     (''Dense_0/kernel'', [19 / 10, 19 / 5]) \<and>
   apply_weight_decay wildcard_match
     (example_config\<lparr>weight_decay := WdRules [(''.*bias.*'', 1 / 5), (''.*Dense.*'', 1 / 10)]\<rparr>)
     (1 / 2000)
     [(''Dense_0/kernel'', [2, 4]), (''Dense_0/bias'', [1]), (''pos_embedding'', [3])] ! 1 =
     (''Dense_0/bias'', [9 / 10]) \<and>
   apply_weight_decay wildcard_match
     (example_config\<lparr>weight_decay := WdRules [(''.*bias.*'', 1 / 5), (''.*Dense.*'', 1 / 10)]\<rparr>)
     (1 / 2000)
     [(''Dense_0/kernel'', [2, 4]), (''Dense_0/bias'', [1]), (''pos_embedding'', [3])] ! 2 =
     (''pos_embedding'', [3]) \<and>
   apply_weight_decay wildcard_match example_config (1 / 2000)
     [(''Dense_0/kernel'', [2, 4]), (''Dense_0/bias'', [1])] =
     [(''Dense_0/kernel'', [19 / 10, 19 / 5]), (''Dense_0/bias'', [1])]"
proof -
  let ?rules = "[(''.*bias.*'', 1 / 5), (''.*Dense.*'', 1 / 10 :: real)]"
  let ?cfg = "example_config\<lparr>weight_decay := WdRules ?rules\<rparr>"
  let ?target = "[(''Dense_0/kernel'', [2, 4]), (''Dense_0/bias'', [1]), (''pos_embedding'', [3 :: real])]"
  have base: "weight_decay_decouple ?cfg \<longrightarrow> lr_base ?cfg \<noteq> 0"
    by (simp add: example_config_def)
  have rules: "weight_decay ?cfg = WdRules ?rules" by simp
  note t = weight_decay_by_pattern [where re_match = wildcard_match and lr = "1 / 2000"
      and opt_target = ?target, OF base, THEN conjunct1, rule_format, OF rules, THEN conjunct2,
      rule_format]
  have kernel: "apply_weight_decay wildcard_match ?cfg (1 / 2000) ?target ! 0 =
      (''Dense_0/kernel'', [19 / 10, 19 / 5])"
    using t [where i = 0, THEN conjunct2, rule_format, where k = 1]
    by (simp add: wildcard_match_def example_config_def)
  have bias: "apply_weight_decay wildcard_match ?cfg (1 / 2000) ?target ! 1 =
      (''Dense_0/bias'', [9 / 10])"
    using t [where i = 1, THEN conjunct2, rule_format, where k = 0]
    by (simp add: wildcard_match_def example_config_def)
  have other: "apply_weight_decay wildcard_match ?cfg (1 / 2000) ?target ! 2 =
      (''pos_embedding'', [3])"
    using t [where i = 2, THEN conjunct1]
    by (simp add: wildcard_match_def)
  have base': "weight_decay_decouple example_config \<longrightarrow> lr_base example_config \<noteq> 0"
    by (simp add: example_config_def)
  have number: "weight_decay example_config = WdNumber (1 / 10) \<and> (1 / 10 :: real) \<noteq> 0"
    by (simp add: example_config_def)
  note n = weight_decay_by_pattern [OF base', THEN conjunct2, THEN conjunct1, rule_format, OF number]
  have default: "apply_weight_decay wildcard_match example_config (1 / 2000)
     [(''Dense_0/kernel'', [2, 4]), (''Dense_0/bias'', [1])] =
     [(''Dense_0/kernel'', [19 / 10, 19 / 5]), (''Dense_0/bias'', [1])]"
    unfolding n by (simp add: example_config_def wildcard_match_def)
  show ?thesis using kernel bias other default by (intro conjI)
qed

end
